theory Spec2Isabelle
  imports
    Main
    "HOL-Library.Word"
    "HOL-Library.Multiset"
    "HOL-Library.Char_ord"
    "HOL-Library.List_Lexorder"
    "HOL-Library.Product_Lexorder"
begin

section \<open>Archive job engine: chat archiver, chat archive registry, KBFS archive manager\<close>

text \<open>
  The development embeds three pieces of the repository:
  \<^item> \<open>shared/util/map.tsx\<close>: \<open>mapGetEnsureValue\<close>;
  \<^item> the chat archiver and its registry (package \<open>chat\<close>): \<open>notifyProgress\<close>,
    \<open>List\<close>, \<open>Set\<close>, \<open>Pause\<close>, \<open>Resume\<close>, \<open>tarGzip\<close>;
  \<^item> the KBFS archive manager (package \<open>simplefs\<close>): the resumable copier, the stage
    workers, the error retry worker and the zipping step.
  Go's \<open>int64\<close> is \<open>64 word\<close>, read with \<open>sint\<close>; Go strings are \<open>string\<close>, ordered
  bytewise; a Go map is a HOL map.
\<close>

subsection \<open>shared/util/map.tsx\<close>

text \<open>
  A JavaScript value of type \<open>any\<close> is either \<open>undefined\<close> or some other value.
  \<open>Map.prototype.get\<close> answers \<open>undefined\<close> for a key the map does not hold, and a map
  may also hold \<open>undefined\<close> under a key.
\<close>

datatype 'v jsval = Undefined | Value 'v

type_synonym ('k, 'v) jsmap = "'k \<rightharpoonup> 'v jsval"

definition map_get :: "('k, 'v) jsmap \<Rightarrow> 'k \<Rightarrow> 'v jsval" where
  "map_get m key = (case m key of None \<Rightarrow> Undefined | Some v \<Rightarrow> v)"

definition map_set :: "('k, 'v) jsmap \<Rightarrow> 'k \<Rightarrow> 'v jsval \<Rightarrow> ('k, 'v) jsmap" where
  "map_set m key v = m(key \<mapsto> v)"

definition map_has :: "('k, 'v) jsmap \<Rightarrow> 'k \<Rightarrow> bool" where
  "map_has m key = (m key \<noteq> None)"

text \<open>The map is mutated in place; the model returns the map after the call and the result.\<close>

definition mapGetEnsureValue ::
  "('k, 'v) jsmap \<Rightarrow> 'k \<Rightarrow> 'v jsval \<Rightarrow> ('k, 'v) jsmap \<times> 'v jsval" where
  "mapGetEnsureValue m key def =
     (let existing = map_get m key in
      if existing = Undefined then (map_set m key def, def)
      else (m, existing))"

subsection \<open>Chat archiver: progress notification\<close>

type_synonym int64 = "64 word"
type_synonym ArchiveJobID = string

text \<open>Of \<open>chat1.Pagination\<close> only \<open>Num\<close> and \<open>Last\<close> are read by \<open>notifyProgress\<close>.\<close>

record Pagination =
  Num :: int
  Last :: bool

text \<open>
  The counters of \<open>ChatArchiver\<close>. The call of \<open>NotifyRouter.HandleChatArchiveProgress\<close>
  is the function's output: the triple it is called with.
\<close>

record ChatArchiver =
  messagesComplete :: int64
  messagesTotal :: int64

type_synonym progress_report = "ArchiveJobID \<times> int64 \<times> int64"

definition notifyProgress ::
  "ChatArchiver \<Rightarrow> ArchiveJobID \<Rightarrow> Pagination \<Rightarrow> ChatArchiver \<times> progress_report" where
  "notifyProgress c jobID pagination =
     (let c1 = c\<lparr>messagesComplete := messagesComplete c + word_of_int (Num pagination)\<rparr>;
          c2 = (if word_sless (messagesTotal c1) (messagesComplete c1) \<or> Last pagination
                then c1\<lparr>messagesComplete := messagesTotal c1\<rparr> else c1)
      in (c2, (jobID, messagesComplete c2, messagesTotal c2)))"

text \<open>A sequence of page notifications of one job, with the reports in the order sent.\<close>

fun notifyProgressAll ::
  "ChatArchiver \<Rightarrow> ArchiveJobID \<Rightarrow> Pagination list \<Rightarrow> ChatArchiver \<times> progress_report list" where
  "notifyProgressAll c jobID [] = (c, [])"
| "notifyProgressAll c jobID (p # ps) =
     (let (c1, r) = notifyProgress c jobID p;
          (c2, rs) = notifyProgressAll c1 jobID ps
      in (c2, r # rs))"

definition report_within_total :: "progress_report \<Rightarrow> bool" where
  "report_within_total r = (case r of (jobID, cmpl, tot) \<Rightarrow> sint cmpl \<le> sint tot)"

subsection \<open>Chat archive registry\<close>

text \<open>
  The status constants of \<open>chat1.ArchiveChatJobStatus\<close> that the registry and the
  archiver name.
\<close>

datatype ArchiveChatJobStatus = RUNNING | PAUSED | BACKGROUND_PAUSED | ERROR | COMPLETE

text \<open>
  Of the request and the job, the fields the registry reads or writes. \<open>StartedAt\<close> is a
  \<open>gregor1.Time\<close>, an \<open>int64\<close> of milliseconds.
\<close>

record ArchiveChatJobRequest =
  JobID :: ArchiveJobID
  OutputPath :: string
  Compress :: bool

record ArchiveChatJob =
  Request :: ArchiveChatJobRequest
  StartedAt :: int64
  Status :: ArchiveChatJobStatus
  Err :: string
  MessagesTotal :: int64
  MessagesComplete :: int64

text \<open>
  A \<open>types.CancelArchiveFn\<close> is a \<open>func() chat1.ArchiveChatJob\<close>: \<open>Nil\<close> is the nil
  function, \<open>CancelFn job\<close> a handle that stops its executor and answers the executor's
  copy \<open>job\<close> of the job.
\<close>

datatype CancelArchiveFn = Nil | CancelFn ArchiveChatJob

text \<open>
  What the registry does to the world outside its own fields: invoking a cancel handle and
  starting \<open>ArchiveChat\<close> in a goroutine.
\<close>

datatype effect = CancelInvoked ArchiveJobID | ArchiveChatSpawned ArchiveChatJobRequest

datatype registry_error =
    NotStarted
  | DbError string
  | ArchiveJobNotFoundError ArchiveJobID
  | CannotPauseNonRunning ArchiveChatJobStatus
  | CancelUnexpectedlyNil
  | CannotResumeNonPaused ArchiveChatJobStatus

text \<open>
  The fields of \<open>ChatArchiveRegistry\<close> behind its mutex. \<open>edbGet\<close> is what
  \<open>r.edb.Get\<close> answers: an error, not found (\<open>Inr None\<close>), or the stored history.
\<close>

record ChatArchiveRegistry =
  started :: bool
  inited :: bool
  dirty :: bool
  runningJobs :: "ArchiveJobID \<rightharpoonup> CancelArchiveFn"
  jobHistory :: "ArchiveJobID \<rightharpoonup> ArchiveChatJob"
  edbGet :: "string + (ArchiveJobID \<rightharpoonup> ArchiveChatJob) option"
  effects :: "effect list"

definition initLocked :: "ChatArchiveRegistry \<Rightarrow> registry_error + ChatArchiveRegistry" where
  "initLocked r =
     (if \<not> started r then Inl NotStarted
      else if inited r then Inr r
      else (case edbGet r of
              Inl e \<Rightarrow> Inl (DbError e)
            | Inr None \<Rightarrow> Inr (r\<lparr>jobHistory := Map.empty, inited := True\<rparr>)
            | Inr (Some h) \<Rightarrow> Inr (r\<lparr>jobHistory := h, inited := True\<rparr>)))"

text \<open>\<open>ByJobStartedAt.Less\<close>, on the two elements compared.\<close>

definition Less :: "ArchiveChatJob \<Rightarrow> ArchiveChatJob \<Rightarrow> bool" where
  "Less x y =
     (if StartedAt x = StartedAt y then JobID (Request x) < JobID (Request y)
      else word_sless (StartedAt x) (StartedAt y))"

text \<open>
  \<open>sort.Sort\<close> of Go's standard library is a comparison sort that looks at the elements
  through \<open>Less\<close> only. The model is insertion sort through \<open>Less\<close>.
\<close>

fun insertJob :: "ArchiveChatJob \<Rightarrow> ArchiveChatJob list \<Rightarrow> ArchiveChatJob list" where
  "insertJob x [] = [x]"
| "insertJob x (y # ys) = (if Less x y then x # y # ys else y # insertJob x ys)"

definition sortJobs :: "ArchiveChatJob list \<Rightarrow> ArchiveChatJob list" where
  "sortJobs xs = foldr insertJob xs []"

text \<open>
  \<open>List\<close>. Go ranges over the map in an order of its choosing: \<open>order\<close> is that order,
  an enumeration of the keys of the history. The result is the returned list or error,
  and the registry after the call.
\<close>

definition List ::
  "ChatArchiveRegistry \<Rightarrow> ArchiveJobID list
     \<Rightarrow> (registry_error + ArchiveChatJob list) \<times> ChatArchiveRegistry" where
  "List r order =
     (case initLocked r of
        Inl e \<Rightarrow> (Inl e, r)
      | Inr r1 \<Rightarrow>
          (Inr (sortJobs (List.map_filter (jobHistory r1) order)), r1))"

definition Set ::
  "ChatArchiveRegistry \<Rightarrow> CancelArchiveFn \<Rightarrow> ArchiveChatJob
     \<Rightarrow> registry_error option \<times> ChatArchiveRegistry" where
  "Set r cancel job =
     (case initLocked r of
        Inl e \<Rightarrow> (Some e, r)
      | Inr r1 \<Rightarrow>
          (let jobID = JobID (Request job);
               running =
                 (case Status job of
                    COMPLETE \<Rightarrow> (runningJobs r1)(jobID := None)
                  | ERROR \<Rightarrow> (runningJobs r1)(jobID := None)
                  | RUNNING \<Rightarrow>
                      (if cancel \<noteq> Nil then (runningJobs r1)(jobID \<mapsto> cancel)
                       else runningJobs r1)
                  | _ \<Rightarrow> runningJobs r1)
           in (None, r1\<lparr>runningJobs := running,
                         jobHistory := (jobHistory r1)(jobID \<mapsto> job),
                         dirty := True\<rparr>)))"

definition Pause ::
  "ChatArchiveRegistry \<Rightarrow> ArchiveJobID \<Rightarrow> registry_error option \<times> ChatArchiveRegistry" where
  "Pause r jobID =
     (case initLocked r of
        Inl e \<Rightarrow> (Some e, r)
      | Inr r1 \<Rightarrow>
          (case jobHistory r1 jobID of
             None \<Rightarrow> (Some (ArchiveJobNotFoundError jobID), r1)
           | Some job \<Rightarrow>
               if Status job \<noteq> RUNNING then (Some (CannotPauseNonRunning (Status job)), r1)
               else (case runningJobs r1 jobID of
                       None \<Rightarrow> (Some (ArchiveJobNotFoundError jobID), r1)
                     | Some Nil \<Rightarrow> (Some CancelUnexpectedlyNil, r1)
                     | Some (CancelFn snapshot) \<Rightarrow>
                         (None,
                          r1\<lparr>runningJobs := (runningJobs r1)(jobID := None),
                             effects := effects r1 @ [CancelInvoked jobID],
                             jobHistory :=
                               (jobHistory r1)(jobID \<mapsto> snapshot\<lparr>Status := PAUSED\<rparr>),
                             dirty := True\<rparr>))))"

definition Resume ::
  "ChatArchiveRegistry \<Rightarrow> ArchiveJobID \<Rightarrow> registry_error option \<times> ChatArchiveRegistry" where
  "Resume r jobID =
     (case initLocked r of
        Inl e \<Rightarrow> (Some e, r)
      | Inr r1 \<Rightarrow>
          (case jobHistory r1 jobID of
             None \<Rightarrow> (Some (ArchiveJobNotFoundError jobID), r1)
           | Some job \<Rightarrow>
               if Status job = ERROR \<or> Status job = PAUSED \<or> Status job = BACKGROUND_PAUSED
               then (None, r1\<lparr>effects := effects r1 @ [ArchiveChatSpawned (Request job)]\<rparr>)
               else (Some (CannotResumeNonPaused (Status job)), r1)))"

text \<open>The order of the claim: by \<open>startedAt\<close>, then by job ID.\<close>

definition jobKey :: "ArchiveChatJob \<Rightarrow> int \<times> ArchiveJobID" where
  "jobKey j = (sint (StartedAt j), JobID (Request j))"

text \<open>Every job of the history is stored under its own job ID, as \<open>Set\<close> stores it.\<close>

definition keyed_by_JobID :: "(ArchiveJobID \<rightharpoonup> ArchiveChatJob) \<Rightarrow> bool" where
  "keyed_by_JobID h = (\<forall>k j. h k = Some j \<longrightarrow> JobID (Request j) = k)"

text \<open>Example values.\<close>

definition exJob :: "ArchiveJobID \<Rightarrow> int64 \<Rightarrow> ArchiveChatJobStatus \<Rightarrow> ArchiveChatJob" where
  "exJob jid t st =
     \<lparr>Request = \<lparr>JobID = jid, OutputPath = ''/out/'' @ jid, Compress = False\<rparr>,
      StartedAt = t, Status = st, Err = [], MessagesTotal = 10, MessagesComplete = 4\<rparr>"

definition exRegistry :: ChatArchiveRegistry where
  "exRegistry =
     \<lparr>started = True, inited = True, dirty = False,
      runningJobs = [''a'' \<mapsto> CancelFn ((exJob ''a'' 7 RUNNING)\<lparr>MessagesComplete := 6\<rparr>)],
      jobHistory = [''a'' \<mapsto> exJob ''a'' 7 RUNNING, ''b'' \<mapsto> exJob ''b'' 7 COMPLETE,
                    ''c'' \<mapsto> exJob ''c'' 3 RUNNING, ''d'' \<mapsto> exJob ''d'' 5 PAUSED],
      edbGet = Inr None, effects = []\<rparr>"

text \<open>The order of the claim, written out: earlier start first, then smaller job ID.\<close>

definition started_then_id_before :: "ArchiveChatJob \<Rightarrow> ArchiveChatJob \<Rightarrow> bool" where
  "started_then_id_before x y =
     (sint (StartedAt x) < sint (StartedAt y)
      \<or> (sint (StartedAt x) = sint (StartedAt y) \<and> JobID (Request x) < JobID (Request y)))"

subsection \<open>KBFS archive manager: state\<close>

text \<open>
  Modelled from the spec: the phase enumeration. \<open>keybase1.SimpleFSArchiveJobPhase\<close> is
  declared outside the files at hand; the manager names \<open>Queued\<close>, \<open>Indexing\<close>,
  \<open>Indexed\<close>, \<open>Copying\<close>, \<open>Copied\<close>, \<open>Zipping\<close> (the spec's Packaging) and \<open>Done\<close>, and
  the spec lists \<open>Paused\<close>, \<open>BackgroundPaused\<close> and \<open>Error\<close> besides. \<open>Queued\<close> is the zero
  value.
\<close>

datatype SimpleFSArchiveJobPhase =
  Queued | Indexing | Indexed | Copying | Copied | Zipping | Done
  | Paused | BackgroundPaused | Error

datatype SimpleFSFileArchiveState = ToDo | InProgress | Complete | Skipped

datatype DirentType = FILE | DIR | SYM | EXEC

record SimpleFSArchiveJobDesc =
  DescJobID :: string
  KbfsPathWithRevision :: string
  StagingPath :: string
  TargetName :: string
  ZipFilePath :: string
  OverwriteZip :: bool

record SimpleFSArchiveFile =
  State :: SimpleFSFileArchiveState
  DirentType :: DirentType
  Sha256SumHex :: string

record SimpleFSArchiveJobState =
  Desc :: SimpleFSArchiveJobDesc
  Manifest :: "string \<rightharpoonup> SimpleFSArchiveFile"
  Phase :: SimpleFSArchiveJobPhase
  BytesTotal :: int64
  BytesCopied :: int64
  BytesZipped :: int64

text \<open>What Go reads from \<open>m.state.Jobs\<close> under a key the map does not hold.\<close>

definition zeroJobState :: SimpleFSArchiveJobState where
  "zeroJobState =
     \<lparr>Desc = \<lparr>DescJobID = [], KbfsPathWithRevision = [], StagingPath = [], TargetName = [],
               ZipFilePath = [], OverwriteZip = False\<rparr>,
      Manifest = Map.empty, Phase = Queued, BytesTotal = 0, BytesCopied = 0, BytesZipped = 0\<rparr>"

text \<open>A \<open>time.Time\<close> is a number of nanoseconds; so is a \<open>time.Duration\<close>.\<close>

type_synonym time = int

definition second :: int where
  "second = 1000000000"

definition archiveErrorRetryDuration :: int where
  "archiveErrorRetryDuration = 60 * second"

record errorState =
  err :: string
  nextRetry :: time

text \<open>
  The fields of \<open>archiveManager\<close> behind its mutex. A signal channel has capacity one: it
  holds a token or it does not. A cancel function carries no data.
\<close>

record archiveManager =
  Jobs :: "string \<rightharpoonup> SimpleFSArchiveJobState"
  jobCtxCancellers :: "string \<rightharpoonup> unit"
  errors :: "string \<rightharpoonup> errorState"
  indexingWorkerSignal :: bool
  copyingWorkerSignal :: bool
  zippingWorkerSignal :: bool

text \<open>\<open>m.signal(ch)\<close>: a token is put into the channel unless it holds one already.\<close>

definition signalIndexing :: "archiveManager \<Rightarrow> archiveManager" where
  "signalIndexing m = m\<lparr>indexingWorkerSignal := True\<rparr>"

definition signalCopying :: "archiveManager \<Rightarrow> archiveManager" where
  "signalCopying m = m\<lparr>copyingWorkerSignal := True\<rparr>"

definition signalZipping :: "archiveManager \<Rightarrow> archiveManager" where
  "signalZipping m = m\<lparr>zippingWorkerSignal := True\<rparr>"

definition changeJobPhaseLocked ::
  "archiveManager \<Rightarrow> string \<Rightarrow> SimpleFSArchiveJobPhase \<Rightarrow> archiveManager" where
  "changeJobPhaseLocked m jobID newPhase =
     (case Jobs m jobID of
        None \<Rightarrow> m
      | Some copy \<Rightarrow> m\<lparr>Jobs := (Jobs m)(jobID \<mapsto> copy\<lparr>Phase := newPhase\<rparr>)\<rparr>)"

definition changeJobPhase ::
  "archiveManager \<Rightarrow> string \<Rightarrow> SimpleFSArchiveJobPhase \<Rightarrow> archiveManager" where
  "changeJobPhase m jobID newPhase = changeJobPhaseLocked m jobID newPhase"

text \<open>
  \<open>startWorkerTask\<close>. \<open>order\<close> is the order in which Go ranges over \<open>m.state.Jobs\<close>; the
  first job in it that is in the eligible phase is claimed.
\<close>

definition startWorkerTask ::
  "archiveManager \<Rightarrow> string list \<Rightarrow> SimpleFSArchiveJobPhase \<Rightarrow> SimpleFSArchiveJobPhase
     \<Rightarrow> string option \<times> archiveManager" where
  "startWorkerTask m order eligiblePhase newPhase =
     (case find (\<lambda>jobID. map_option Phase (Jobs m jobID) = Some eligiblePhase) order of
        None \<Rightarrow> (None, m)
      | Some jobID \<Rightarrow>
          (Some jobID,
           (changeJobPhaseLocked m jobID newPhase)
             \<lparr>jobCtxCancellers := (jobCtxCancellers m)(jobID \<mapsto> ())\<rparr>))"

definition setJobError :: "archiveManager \<Rightarrow> string \<Rightarrow> string \<Rightarrow> time \<Rightarrow> archiveManager" where
  "setJobError m jobID e now =
     m\<lparr>errors := (errors m)(jobID \<mapsto> \<lparr>err = e, nextRetry = now + archiveErrorRetryDuration\<rparr>)\<rparr>"

subsection \<open>KBFS archive manager: the stage workers\<close>

text \<open>
  \<open>doIndexing\<close>. \<open>listing\<close> is what the listing of the source answers: the error of
  \<open>SimpleFSMakeOpid\<close>, \<open>SimpleFSWait\<close> or \<open>SimpleFSReadList\<close>, or the entries read.
\<close>

record Dirent =
  Name :: string
  EntryType :: DirentType
  Size :: int

fun indexEntries ::
  "Dirent list \<Rightarrow> (string \<rightharpoonup> SimpleFSArchiveFile) \<times> int64
     \<Rightarrow> (string \<rightharpoonup> SimpleFSArchiveFile) \<times> int64" where
  "indexEntries [] (manifest, bytesTotal) = (manifest, bytesTotal)"
| "indexEntries (e # es) (manifest, bytesTotal) =
     indexEntries es
       (manifest(Name e \<mapsto> \<lparr>State = ToDo, DirentType = EntryType e, Sha256SumHex = []\<rparr>),
        (if EntryType e = FILE \<or> EntryType e = EXEC then bytesTotal + word_of_int (Size e)
         else bytesTotal))"

definition doIndexing ::
  "archiveManager \<Rightarrow> string \<Rightarrow> string + Dirent list \<Rightarrow> string option \<times> archiveManager" where
  "doIndexing m jobID listing =
     (case listing of
        Inl e \<Rightarrow> (Some e, m)
      | Inr entries \<Rightarrow>
          (let (manifest, bytesTotal) = indexEntries entries (Map.empty, 0) in
           (None,
            (case Jobs m jobID of
               None \<Rightarrow> m
             | Some jobCopy \<Rightarrow>
                 m\<lparr>Jobs := (Jobs m)(jobID \<mapsto>
                      jobCopy\<lparr>Manifest := manifest, BytesTotal := bytesTotal\<rparr>)\<rparr>))))"

text \<open>
  One turn of the loop of \<open>indexingWorker\<close>, from the token taken out of its channel to
  the end of the loop body. \<open>now\<close> is the time \<open>setJobError\<close> reads. Writing the state file
  changes none of the manager's fields.
\<close>

definition indexingWorker ::
  "archiveManager \<Rightarrow> string list \<Rightarrow> string + Dirent list \<Rightarrow> time \<Rightarrow> archiveManager" where
  "indexingWorker m order listing now =
     (case startWorkerTask (m\<lparr>indexingWorkerSignal := False\<rparr>) order Queued Indexing of
        (None, m1) \<Rightarrow> m1
      | (Some jobID, m1) \<Rightarrow>
          (case doIndexing (signalIndexing m1) jobID listing of
             (None, m2) \<Rightarrow> signalCopying (changeJobPhase m2 jobID Indexed)
           | (Some e, m2) \<Rightarrow> setJobError m2 jobID e now))"

text \<open>
  \<open>doCopying\<close> and \<open>doZipping\<close> reach the manager through their closures only:
  \<open>updateManifest\<close> and \<open>updateBytesCopied\<close> for the one, the reset of \<open>BytesZipped\<close> and
  \<open>updateBytesZipped\<close> for the other. What the file system makes of a run is, for the
  manager, the sequence of those calls and the error returned.
\<close>

definition updateManifest ::
  "string \<Rightarrow> (string \<rightharpoonup> SimpleFSArchiveFile) \<Rightarrow> archiveManager \<Rightarrow> archiveManager option" where
  \<comment> \<open>Go panics on the nil manifest of the zero value when the job is gone: \<open>None\<close>.\<close>
  "updateManifest jobID manifest m =
     (case Jobs m jobID of
        None \<Rightarrow> if manifest = Map.empty then Some (m\<lparr>Jobs := (Jobs m)(jobID \<mapsto> zeroJobState)\<rparr>)
                else None
      | Some job \<Rightarrow>
          Some (m\<lparr>Jobs := (Jobs m)(jobID \<mapsto> job\<lparr>Manifest := Manifest job ++ manifest\<rparr>)\<rparr>))"

definition jobOrZero :: "archiveManager \<Rightarrow> string \<Rightarrow> SimpleFSArchiveJobState" where
  "jobOrZero m jobID = (case Jobs m jobID of None \<Rightarrow> zeroJobState | Some job \<Rightarrow> job)"

definition updateBytesCopied :: "string \<Rightarrow> int64 \<Rightarrow> archiveManager \<Rightarrow> archiveManager" where
  "updateBytesCopied jobID delta m =
     (let job = jobOrZero m jobID in
      m\<lparr>Jobs := (Jobs m)(jobID \<mapsto> job\<lparr>BytesCopied := BytesCopied job + delta\<rparr>)\<rparr>)"

definition resetBytesZipped :: "string \<Rightarrow> archiveManager \<Rightarrow> archiveManager" where
  "resetBytesZipped jobID m =
     (let job = jobOrZero m jobID in
      m\<lparr>Jobs := (Jobs m)(jobID \<mapsto> job\<lparr>BytesZipped := 0\<rparr>)\<rparr>)"

definition updateBytesZipped :: "string \<Rightarrow> int64 \<Rightarrow> archiveManager \<Rightarrow> archiveManager" where
  "updateBytesZipped jobID delta m =
     (let job = jobOrZero m jobID in
      m\<lparr>Jobs := (Jobs m)(jobID \<mapsto> job\<lparr>BytesZipped := BytesZipped job + delta\<rparr>)\<rparr>)"

datatype copy_call = UpdateManifest "string \<rightharpoonup> SimpleFSArchiveFile" | UpdateBytesCopied int64

fun copyCalls :: "string \<Rightarrow> copy_call list \<Rightarrow> archiveManager \<Rightarrow> archiveManager option" where
  "copyCalls jobID [] m = Some m"
| "copyCalls jobID (UpdateManifest manifest # cs) m =
     (case updateManifest jobID manifest m of
        None \<Rightarrow> None
      | Some m1 \<Rightarrow> copyCalls jobID cs m1)"
| "copyCalls jobID (UpdateBytesCopied delta # cs) m =
     copyCalls jobID cs (updateBytesCopied jobID delta m)"

definition zipCalls :: "string \<Rightarrow> int64 list \<Rightarrow> archiveManager \<Rightarrow> archiveManager" where
  "zipCalls jobID deltas m =
     foldl (\<lambda>m1 delta. updateBytesZipped jobID delta m1) (resetBytesZipped jobID m) deltas"

text \<open>
  One turn of the loops of \<open>copyingWorker\<close> and \<open>zippingWorker\<close>; \<open>run\<close> is the run of
  \<open>doCopying\<close> or \<open>doZipping\<close>: its calls and the error it returns (\<open>None\<close> for \<open>nil\<close>).
\<close>

definition copyingWorker ::
  "archiveManager \<Rightarrow> string list \<Rightarrow> copy_call list \<times> string option \<Rightarrow> time
     \<Rightarrow> archiveManager option" where
  "copyingWorker m order run now =
     (case startWorkerTask (m\<lparr>copyingWorkerSignal := False\<rparr>) order Indexed Copying of
        (None, m1) \<Rightarrow> Some m1
      | (Some jobID, m1) \<Rightarrow>
          (case copyCalls jobID (fst run) (signalCopying m1) of
             None \<Rightarrow> None
           | Some m2 \<Rightarrow>
               (case snd run of
                  None \<Rightarrow> Some (signalZipping (changeJobPhase m2 jobID Copied))
                | Some e \<Rightarrow> Some (setJobError m2 jobID e now))))"

definition zippingWorker ::
  "archiveManager \<Rightarrow> string list \<Rightarrow> int64 list \<times> string option \<Rightarrow> time \<Rightarrow> archiveManager" where
  "zippingWorker m order run now =
     (case startWorkerTask (m\<lparr>zippingWorkerSignal := False\<rparr>) order Copied Zipping of
        (None, m1) \<Rightarrow> m1
      | (Some jobID, m1) \<Rightarrow>
          (let m2 = zipCalls jobID (fst run) (signalZipping m1) in
           case snd run of
             None \<Rightarrow> changeJobPhase m2 jobID Done
           | Some e \<Rightarrow> setJobError m2 jobID e now))"

subsection \<open>KBFS archive manager: error retry\<close>

definition resetInterruptedPhaseLocked :: "archiveManager \<Rightarrow> string \<Rightarrow> bool \<times> archiveManager" where
  "resetInterruptedPhaseLocked m jobID =
     (case Phase (jobOrZero m jobID) of
        Indexing \<Rightarrow> (True, changeJobPhaseLocked m jobID Queued)
      | Copying \<Rightarrow> (True, changeJobPhaseLocked m jobID Indexed)
      | Zipping \<Rightarrow> (True, changeJobPhaseLocked m jobID Copied)
      | _ \<Rightarrow> (False, m))"

text \<open>The body of the loop over \<open>jobIDs\<close> in \<open>errorRetryWorker\<close>, at time \<open>now\<close>.\<close>

definition retryJob :: "time \<Rightarrow> archiveManager \<Rightarrow> string \<Rightarrow> archiveManager" where
  "retryJob now m jobID =
     (case errors m jobID of
        None \<Rightarrow> m
      | Some errState \<Rightarrow>
          if now < nextRetry errState then m
          else (case resetInterruptedPhaseLocked m jobID of
                  (False, m1) \<Rightarrow> m1
                | (True, m1) \<Rightarrow>
                    signalZipping (signalCopying (signalIndexing
                      (m1\<lparr>errors := (errors m1)(jobID := None)\<rparr>)))))"

text \<open>
  One tick of \<open>errorRetryWorker\<close>. The slice \<open>jobIDs\<close> is made with length
  \<open>len(m.state.Jobs)\<close> and the keys are appended to it, so it starts with that many empty
  strings; \<open>order\<close> is the order in which Go ranges over the map.
\<close>

definition errorRetryWorker :: "time \<Rightarrow> string list \<Rightarrow> archiveManager \<Rightarrow> archiveManager" where
  "errorRetryWorker now order m =
     foldl (retryJob now) m (replicate (length order) [] @ order)"

text \<open>The phase a job is put back to, and the working phases.\<close>

definition eligiblePhaseOf :: "SimpleFSArchiveJobPhase \<Rightarrow> SimpleFSArchiveJobPhase" where
  "eligiblePhaseOf p =
     (if p = Indexing then Queued else if p = Copying then Indexed
      else if p = Zipping then Copied else p)"

definition workingPhase :: "SimpleFSArchiveJobPhase \<Rightarrow> bool" where
  "workingPhase p = (p = Indexing \<or> p = Copying \<or> p = Zipping)"

text \<open>Example values.\<close>

definition exDesc :: "string \<Rightarrow> SimpleFSArchiveJobDesc" where
  "exDesc jid =
     \<lparr>DescJobID = jid, KbfsPathWithRevision = ''/keybase/private/u'', StagingPath = ''/st/'' @ jid,
      TargetName = ''u'', ZipFilePath = ''/out/'' @ jid @ ''.zip'', OverwriteZip = False\<rparr>"

definition exJobState :: "string \<Rightarrow> SimpleFSArchiveJobPhase \<Rightarrow> SimpleFSArchiveJobState" where
  "exJobState jid ph =
     \<lparr>Desc = exDesc jid, Manifest = Map.empty, Phase = ph, BytesTotal = 0, BytesCopied = 0,
      BytesZipped = 0\<rparr>"

definition exManager :: archiveManager where
  "exManager =
     \<lparr>Jobs = [''q'' \<mapsto> exJobState ''q'' Queued, ''i'' \<mapsto> exJobState ''i'' Indexed,
              ''c'' \<mapsto> exJobState ''c'' Copied],
      jobCtxCancellers = Map.empty, errors = Map.empty,
      indexingWorkerSignal = True, copyingWorkerSignal = True, zippingWorkerSignal = True\<rparr>"

definition exFailed :: archiveManager where
  "exFailed =
     \<lparr>Jobs = [''x'' \<mapsto> exJobState ''x'' Indexing, ''y'' \<mapsto> exJobState ''y'' Copying,
              ''z'' \<mapsto> exJobState ''z'' Zipping, ''w'' \<mapsto> exJobState ''w'' Done],
      jobCtxCancellers = [''x'' \<mapsto> (), ''y'' \<mapsto> (), ''z'' \<mapsto> ()],
      errors = [''x'' \<mapsto> \<lparr>err = ''e'', nextRetry = 100\<rparr>, ''y'' \<mapsto> \<lparr>err = ''e'', nextRetry = 100\<rparr>,
                ''z'' \<mapsto> \<lparr>err = ''e'', nextRetry = 100\<rparr>, ''w'' \<mapsto> \<lparr>err = ''e'', nextRetry = 100\<rparr>],
      indexingWorkerSignal = False, copyingWorkerSignal = False, zippingWorkerSignal = False\<rparr>"

text \<open>
  A job is recorded as failed: its error record holds the error and a retry time one minute
  after \<open>now\<close>, and the job is in phase \<open>ph\<close>.
\<close>

definition failed_in ::
  "archiveManager \<Rightarrow> string \<Rightarrow> string \<Rightarrow> time \<Rightarrow> SimpleFSArchiveJobPhase \<Rightarrow> bool" where
  "failed_in m jobID e now ph =
     (errors m jobID = Some \<lparr>err = e, nextRetry = now + 60 * second\<rparr>
      \<and> map_option Phase (Jobs m jobID) = Some ph)"

text \<open>
  A job that a tick of the retry worker acts on, the job as it is put back, and all three
  stage signals holding a token.
\<close>

definition dueForRetry :: "time \<Rightarrow> archiveManager \<Rightarrow> string \<Rightarrow> bool" where
  "dueForRetry now m jobID =
     ((case errors m jobID of None \<Rightarrow> False | Some errState \<Rightarrow> nextRetry errState \<le> now)
      \<and> workingPhase (Phase (jobOrZero m jobID)))"

definition revertPhase :: "SimpleFSArchiveJobState \<Rightarrow> SimpleFSArchiveJobState" where
  "revertPhase job = job\<lparr>Phase := eligiblePhaseOf (Phase job)\<rparr>"

definition allSignalled :: "archiveManager \<Rightarrow> bool" where
  "allSignalled m = (indexingWorkerSignal m \<and> copyingWorkerSignal m \<and> zippingWorkerSignal m)"

subsection \<open>Packaging: the disk and the operating system\<close>

text \<open>
  The local disk as far as packaging looks at it: a path holds a directory or a regular
  file (symbolic links at the paths opened are outside this model).
\<close>

type_synonym byte = "8 word"

datatype node = Dir | File "byte list"

type_synonym disk = "string \<rightharpoonup> node"

text \<open>
  What packaging takes from outside the repository and cannot decide itself:
  \<^item> \<open>pathJoin\<close>: \<open>filepath.Join\<close> and \<open>path.Join\<close>;
  \<^item> \<open>pathDir\<close>: \<open>filepath.Dir\<close>, the directory a path lies in;
  \<^item> \<open>below dir p\<close>: for the file system, the path \<open>p\<close> names something under \<open>dir\<close>;
  \<^item> \<open>openRefused\<close>: the system refuses to open the path for writing for a reason of its
    own, such as missing permissions;
  \<^item> \<open>walkError d dir\<close>: the error a walk of \<open>dir\<close> on disk \<open>d\<close> stops with, if any: an
    entry that cannot be read, a file of a kind the zip writer refuses, a write that
    fails;
  \<^item> \<open>closeError\<close>: the error of closing the archive writer and the file at this path, if
    any;
  \<^item> \<open>removeAllLeaves\<close>: \<open>None\<close> when \<open>os.RemoveAll\<close> of the path succeeds, \<open>Some keep\<close> when
    it fails and leaves the paths that satisfy \<open>keep\<close>;
  \<^item> \<open>zipWritten ctx d dir e\<close> and \<open>tarWritten d dir e\<close>: the bytes that \<open>archive/zip\<close>, and
    \<open>archive/tar\<close> with \<open>compress/gzip\<close>, have put into the file once the walk of \<open>dir\<close> on
    disk \<open>d\<close> has ended with \<open>e\<close> and the writers are closed; for the zip they depend on the
    context \<open>ctx\<close> (the polls of \<open>ctx.Done()\<close> that find it live), because a cancelled copy
    of a file cuts its entry short;
  \<^item> \<open>downloadsDir\<close>: \<open>Env.GetDownloadsDir()\<close>.
\<close>

record os_env =
  pathJoin :: "string \<Rightarrow> string \<Rightarrow> string"
  pathDir :: "string \<Rightarrow> string"
  below :: "string \<Rightarrow> string \<Rightarrow> bool"
  openRefused :: "string \<Rightarrow> bool"
  walkError :: "disk \<Rightarrow> string \<Rightarrow> string option"
  closeError :: "string \<Rightarrow> string option"
  removeAllLeaves :: "string \<Rightarrow> (string \<Rightarrow> bool) option"
  zipWritten :: "nat option \<Rightarrow> disk \<Rightarrow> string \<Rightarrow> string option \<Rightarrow> byte list"
  tarWritten :: "disk \<Rightarrow> string \<Rightarrow> string option \<Rightarrow> byte list"
  downloadsDir :: string

text \<open>
  \<open>os.RemoveAll\<close>: when it succeeds the path and everything below it, its tree, is gone
  (a missing path is no error); when it fails, what it leaves of the tree stays. The
  result is the error and the disk afterwards.
\<close>

definition inTree :: "os_env \<Rightarrow> string \<Rightarrow> string \<Rightarrow> bool" where
  "inTree os path p = (p = path \<or> below os path p)"

definition RemoveAll :: "os_env \<Rightarrow> disk \<Rightarrow> string \<Rightarrow> string option \<times> disk" where
  "RemoveAll os d path =
     (case removeAllLeaves os path of
        None \<Rightarrow> (None, \<lambda>p. if inTree os path p then None else d p)
      | Some keep \<Rightarrow>
          (Some ''remove error'', \<lambda>p. if inTree os path p \<and> \<not> keep p then None else d p))"

text \<open>
  \<open>os.OpenFile\<close> for writing with \<open>O_CREATE\<close> and either \<open>O_EXCL\<close> or \<open>O_TRUNC\<close>
  (\<open>os.Create\<close> is the latter). With \<open>O_EXCL\<close> the open fails when anything is at the
  path; a directory cannot be opened for writing; the file must lie in a directory that
  exists; and the system may refuse for reasons of its own. The file is empty after a
  successful open in both modes.
\<close>

datatype open_flag = O_EXCL | O_TRUNC

definition openFile :: "os_env \<Rightarrow> disk \<Rightarrow> string \<Rightarrow> open_flag \<Rightarrow> string + disk" where
  "openFile os d path flag =
     (if flag = O_EXCL \<and> d path \<noteq> None then Inl ''file exists''
      else if d path = Some Dir then Inl ''is a directory''
      else if d (pathDir os path) \<noteq> Some Dir then Inl ''no such file or directory''
      else if openRefused os path then Inl ''open refused''
      else Inr (d(path \<mapsto> File [])))"

definition getWorkspaceDir :: "os_env \<Rightarrow> SimpleFSArchiveJobDesc \<Rightarrow> string" where
  "getWorkspaceDir os jobDesc = pathJoin os (StagingPath jobDesc) ''workspace''"

subsection \<open>Packaging: doZipping of the KBFS archive manager\<close>

text \<open>
  \<open>zipWriterAddDir\<close>: the error of the walk. \<open>fs.WalkDir\<close> fails at once when its root is
  not a directory; every other error that stops the walk is the system's. The result of
  \<open>ctxAwareCopy\<close> is not looked at, so the context never makes the walk fail: it shows
  in the bytes written only.
\<close>

definition zipWriterAddDir :: "os_env \<Rightarrow> disk \<Rightarrow> string \<Rightarrow> string option" where
  "zipWriterAddDir os d dirPath =
     (if d dirPath \<noteq> Some Dir then Some ''walk error'' else walkError os d dirPath)"

text \<open>
  \<open>doZipping\<close> on the disk: the returned error (\<open>None\<close> for \<open>nil\<close>) and the disk afterwards.
  Its calls on the manager's byte counter are in \<open>zipCalls\<close>. The deferred calls close
  the zip writer and the file when the inner function returns, after a failed walk too;
  their error is returned when the walk had none. A failure of \<open>os.RemoveAll\<close> is logged
  and not returned.
\<close>

definition doZipping ::
  "os_env \<Rightarrow> nat option \<Rightarrow> disk \<Rightarrow> SimpleFSArchiveJobDesc \<Rightarrow> string option \<times> disk" where
  "doZipping os ctx d jobDesc =
     (let workspaceDir = getWorkspaceDir os jobDesc;
          mode = (if OverwriteZip jobDesc then O_TRUNC else O_EXCL)
      in case openFile os d (ZipFilePath jobDesc) mode of
           Inl e \<Rightarrow> (Some e, d)
         | Inr d1 \<Rightarrow>
             (let walk = zipWriterAddDir os d1 workspaceDir;
                  d2 = d1(ZipFilePath jobDesc \<mapsto> File (zipWritten os ctx d1 workspaceDir walk));
                  err = (case walk of
                           Some e \<Rightarrow> Some e
                         | None \<Rightarrow> closeError os (ZipFilePath jobDesc))
              in case err of
                   Some e \<Rightarrow> (Some e, d2)
                 | None \<Rightarrow> (None, snd (RemoveAll os d2 workspaceDir))))"

subsection \<open>Packaging: tarGzip of the chat archiver\<close>

text \<open>
  \<open>tarGzip\<close> creates the archive with \<open>os.Create\<close>, that is with \<open>O_TRUNC\<close>, and walks
  \<open>inPath\<close> with \<open>filepath.Walk\<close>, which fails at once when \<open>inPath\<close> does not exist. The
  errors of the deferred \<open>Close\<close> calls are dropped: they show in the bytes written only.
\<close>

definition tarGzip :: "os_env \<Rightarrow> disk \<Rightarrow> string \<Rightarrow> string \<Rightarrow> string option \<times> disk" where
  "tarGzip os d inPath outPath =
     (case openFile os d outPath O_TRUNC of
        Inl e \<Rightarrow> (Some e, d)
      | Inr d1 \<Rightarrow>
          (let walk = (if d1 inPath = None then Some ''walk error'' else walkError os d1 inPath)
           in (walk, d1(outPath \<mapsto> File (tarWritten os d1 inPath walk)))))"

text \<open>
  \<open>ArchiveChat\<close>: the output path, with the default for an empty one, and the end of the
  function, after all conversations are written: the returned path or error, and the disk.
\<close>

definition ArchiveChat_OutputPath :: "os_env \<Rightarrow> ArchiveChatJobRequest \<Rightarrow> string" where
  "ArchiveChat_OutputPath os arg =
     (if OutputPath arg = [] then pathJoin os (downloadsDir os) (''kbchat-'' @ JobID arg)
      else OutputPath arg)"

definition ArchiveChat_package ::
  "os_env \<Rightarrow> disk \<Rightarrow> ArchiveChatJobRequest \<Rightarrow> (string + string) \<times> disk" where
  "ArchiveChat_package os d arg =
     (let out = ArchiveChat_OutputPath os arg in
      if Compress arg then
        (let outpath = out @ ''.tar.gzip'' in
         case tarGzip os d out outpath of
           (Some e, d1) \<Rightarrow> (Inl e, d1)
         | (None, d1) \<Rightarrow>
             (case RemoveAll os d1 out of
                (Some e, d2) \<Rightarrow> (Inl e, d2)
              | (None, d2) \<Rightarrow> (Inr outpath, d2)))
      else (Inr out, d))"

text \<open>
  Example values: a disk, and a system that refuses nothing, joins clean paths with a
  slash, finds the directory of a path before its last slash, and takes \<open>p\<close> to be below
  \<open>dir\<close> when it starts with \<open>dir\<close> and a slash; and the same system with an
  \<open>os.RemoveAll\<close> that fails and removes nothing. In place of the archive formats, the
  example writes the byte 80 followed by the bytes of \<open>chat.txt\<close> in the directory.
\<close>

definition exDisk :: disk where
  "exDisk =
     [''/'' \<mapsto> Dir, ''/st'' \<mapsto> Dir, ''/st/j'' \<mapsto> Dir, ''/out'' \<mapsto> Dir, ''/dl'' \<mapsto> Dir,
      ''/st/j/workspace'' \<mapsto> Dir, ''/st/j/workspace/u'' \<mapsto> Dir,
      ''/st/j/workspace/u/a.txt'' \<mapsto> File [104, 105],
      ''/out/j.zip'' \<mapsto> File [1, 2, 3],
      ''/dl/kbchat-j'' \<mapsto> Dir, ''/dl/kbchat-j/chat.txt'' \<mapsto> File [104, 105],
      ''/dl/kbchat-j.tar.gzip'' \<mapsto> File [1, 2, 3]]"

definition exEncode :: "disk \<Rightarrow> string \<Rightarrow> byte list" where
  "exEncode d dir = (case d (dir @ ''/chat.txt'') of Some (File bs) \<Rightarrow> 80 # bs | _ \<Rightarrow> [80])"

definition within :: "string \<Rightarrow> string \<Rightarrow> bool" where
  "within dir p = (take (Suc (length dir)) p = dir @ ''/'')"

definition exDir :: "string \<Rightarrow> string" where
  "exDir p =
     (let dir = rev (tl (dropWhile (\<lambda>ch. ch \<noteq> CHR ''/'') (rev p)))
      in if dir = [] then ''/'' else dir)"

definition exOS :: os_env where
  "exOS =
     \<lparr>pathJoin = (\<lambda>a b. a @ ''/'' @ b), pathDir = exDir, below = within,
      openRefused = (\<lambda>p. False), walkError = (\<lambda>d p. None), closeError = (\<lambda>p. None),
      removeAllLeaves = (\<lambda>p. None),
      zipWritten = (\<lambda>ctx d dir e. exEncode d dir), tarWritten = (\<lambda>d dir e. exEncode d dir),
      downloadsDir = ''/dl''\<rparr>"

definition exStuckOS :: os_env where
  "exStuckOS = exOS\<lparr>removeAllLeaves := (\<lambda>p. Some (\<lambda>q. True))\<rparr>"

definition exRequest :: ArchiveChatJobRequest where
  "exRequest = \<lparr>JobID = ''j'', OutputPath = ''/dl/kbchat-j'', Compress = True\<rparr>"

subsection \<open>KBFS archive manager: the resumable copier\<close>

text \<open>
  The copier reads a regular file of the source, \<open>srcDirFS\<close>, a map from the path within
  the job to the bytes of the file, and writes regular files of the local disk. Reads and
  writes of open files succeed, and so do \<open>os.MkdirAll\<close>, \<open>os.Lstat\<close>, \<open>os.OpenFile\<close>
  and \<open>os.Chtimes\<close> on the local path; the errors of the model are a source that cannot
  be opened (\<open>SrcOpenError\<close>) or examined (\<open>SrcLstatError\<close>) and the cancellation of the
  context. \<open>ctxPolls\<close> says how many more polls of \<open>ctx.Done()\<close> find the context live
  (\<open>None\<close>: it is never cancelled). \<open>counter\<close> is the state that \<open>bytesCopiedUpdater\<close>
  works on: for \<open>doCopying\<close> the manager, with \<open>updateBytesCopied jobID\<close> as the
  updater. \<open>NilMapPanic\<close> is the panic of \<open>updateManifest\<close> on a job that is gone.
\<close>

datatype copy_error = SrcOpenError | Canceled | SrcLstatError | NilMapPanic

record 's copier =
  localFiles :: "string \<rightharpoonup> byte list"
  ctxPolls :: "nat option"
  counter :: 's

definition ctxDone :: "'s copier \<Rightarrow> bool" where
  "ctxDone c = (ctxPolls c = Some 0)"

definition contents :: "'s copier \<Rightarrow> string \<Rightarrow> byte list" where
  "contents c path = (case localFiles c path of None \<Rightarrow> [] | Some bs \<Rightarrow> bs)"

text \<open>
  One round of the loop of \<open>ctxAwareCopy\<close> in which \<open>io.CopyN\<close> answers \<open>nil\<close> or
  \<open>io.EOF\<close>: the poll, the bytes written behind what the file holds, and the call of the
  updater with their number.
\<close>

definition copyChunk ::
  "'s copier \<Rightarrow> string \<Rightarrow> byte list \<Rightarrow> (int64 \<Rightarrow> 's \<Rightarrow> 's) \<Rightarrow> 's copier" where
  "copyChunk c to chunk bytesUpdater =
     c\<lparr>ctxPolls := map_option (\<lambda>n. n - 1) (ctxPolls c),
       localFiles := (localFiles c)(to \<mapsto> contents c to @ chunk),
       counter := bytesUpdater (of_nat (length chunk)) (counter c)\<rparr>"

text \<open>
  \<open>io.CopyN(to, from, 64*1024)\<close> answers \<open>nil\<close> when it has copied all 65536 bytes and
  \<open>io.EOF\<close> when the reader ended before that.
\<close>

function ctxAwareCopy ::
  "'s copier \<Rightarrow> string \<Rightarrow> byte list \<Rightarrow> (int64 \<Rightarrow> 's \<Rightarrow> 's) \<Rightarrow> copy_error + 's copier" where
  "ctxAwareCopy c to from bytesUpdater =
     (if ctxDone c then Inl Canceled
      else if 65536 \<le> length from
        then ctxAwareCopy (copyChunk c to (take 65536 from) bytesUpdater) to (drop 65536 from)
               bytesUpdater
        else Inr (copyChunk c to from bytesUpdater))"
  by pat_completeness auto
termination
  by (relation "measure (\<lambda>(c, to, from, bytesUpdater). length from)") auto

declare ctxAwareCopy.simps [simp del]

text \<open>
  \<open>copyFileFromBeginning\<close> opens the destination with \<open>O_TRUNC\<close>. When the copy has ended
  at \<open>io.EOF\<close> the tee reader has passed every byte of the source to the hash, so the sum
  returned is that of the source. \<open>sha256\<close> stands for \<open>crypto/sha256\<close>.
\<close>

definition copyFileFromBeginning ::
  "(byte list \<Rightarrow> byte list) \<Rightarrow> 's copier \<Rightarrow> (string \<rightharpoonup> byte list) \<Rightarrow> string \<Rightarrow> string
     \<Rightarrow> (int64 \<Rightarrow> 's \<Rightarrow> 's) \<Rightarrow> copy_error + byte list \<times> 's copier" where
  "copyFileFromBeginning sha256 c srcDirFS entryPathWithinJob localPath bytesCopiedUpdater =
     (case srcDirFS entryPathWithinJob of
        None \<Rightarrow> Inl SrcOpenError
      | Some src \<Rightarrow>
          (case ctxAwareCopy (c\<lparr>localFiles := (localFiles c)(localPath \<mapsto> [])\<rparr>) localPath src
                  bytesCopiedUpdater of
             Inl e \<Rightarrow> Inl e
           | Inr c1 \<Rightarrow> Inr (sha256 src, c1)))"

text \<open>
  \<open>copyFilePickupPrevious\<close> seeks the source to the offset, appends to the destination
  (\<open>O_APPEND\<close>, created when missing), then reads the whole source and the whole
  destination again and compares the two sums.
\<close>

definition copyFilePickupPrevious ::
  "(byte list \<Rightarrow> byte list) \<Rightarrow> 's copier \<Rightarrow> (string \<rightharpoonup> byte list) \<Rightarrow> string \<Rightarrow> string
     \<Rightarrow> nat \<Rightarrow> (int64 \<Rightarrow> 's \<Rightarrow> 's) \<Rightarrow> copy_error + byte list \<times> 's copier" where
  "copyFilePickupPrevious sha256 c srcDirFS entryPathWithinJob localPath srcSeekOffset
       bytesCopiedUpdater =
     (case srcDirFS entryPathWithinJob of
        None \<Rightarrow> Inl SrcOpenError
      | Some src \<Rightarrow>
          (case ctxAwareCopy (c\<lparr>localFiles := (localFiles c)(localPath \<mapsto> contents c localPath)\<rparr>)
                  localPath (drop srcSeekOffset src) bytesCopiedUpdater of
             Inl e \<Rightarrow> Inl e
           | Inr c1 \<Rightarrow>
               (let size = length src;
                    srcSHA256Sum = sha256 src;
                    dstSHA256Sum = sha256 (contents c1 localPath)
                in if srcSHA256Sum \<noteq> dstSHA256Sum
                   then copyFileFromBeginning sha256
                          (c1\<lparr>counter := bytesCopiedUpdater (- of_nat size) (counter c1)\<rparr>)
                          srcDirFS entryPathWithinJob localPath bytesCopiedUpdater
                   else Inr (srcSHA256Sum, c1))))"

definition copyFile ::
  "(byte list \<Rightarrow> byte list) \<Rightarrow> 's copier \<Rightarrow> (string \<rightharpoonup> byte list) \<Rightarrow> string \<Rightarrow> string
     \<Rightarrow> nat \<Rightarrow> (int64 \<Rightarrow> 's \<Rightarrow> 's) \<Rightarrow> copy_error + byte list \<times> 's copier" where
  "copyFile sha256 c srcDirFS entryPathWithinJob localPath srcSeekOffset bytesCopiedUpdater =
     (if srcSeekOffset = 0
      then copyFileFromBeginning sha256 c srcDirFS entryPathWithinJob localPath bytesCopiedUpdater
      else copyFilePickupPrevious sha256 c srcDirFS entryPathWithinJob localPath srcSeekOffset
             bytesCopiedUpdater)"

text \<open>\<open>hex.EncodeToString\<close>.\<close>

definition hexDigit :: "nat \<Rightarrow> char" where
  "hexDigit n = ''0123456789abcdef'' ! n"

definition hexEncodeToString :: "byte list \<Rightarrow> string" where
  "hexEncodeToString bs =
     concat (map (\<lambda>b. [hexDigit (unat b div 16), hexDigit (unat b mod 16)]) bs)"

text \<open>
  The branch of \<open>doCopying\<close> for a regular file, from \<open>os.Lstat\<close> of the local path to the
  entry marked complete: the offset is the size of the destination when it exists.
\<close>

definition copyRegularFile ::
  "(byte list \<Rightarrow> byte list) \<Rightarrow> 's copier \<Rightarrow> (string \<rightharpoonup> byte list) \<Rightarrow> string \<Rightarrow> string
     \<Rightarrow> SimpleFSArchiveFile \<Rightarrow> (int64 \<Rightarrow> 's \<Rightarrow> 's)
     \<Rightarrow> copy_error + SimpleFSArchiveFile \<times> 's copier" where
  "copyRegularFile sha256 c srcDirFS entryPathWithinJob localPath entry updateBytesCopied' =
     (let seek = (case localFiles c localPath of None \<Rightarrow> 0 | Some dst \<Rightarrow> length dst)
      in case copyFile sha256 c srcDirFS entryPathWithinJob localPath seek updateBytesCopied' of
           Inl e \<Rightarrow> Inl e
         | Inr (sha256Sum, c1) \<Rightarrow>
             Inr (entry\<lparr>Sha256SumHex := hexEncodeToString sha256Sum, State := Complete\<rparr>, c1))"

text \<open>
  The body of the loop of \<open>doCopying\<close> for one entry whose source is a regular file. The
  entry is marked in progress and the manifest handed to the manager; the file is copied
  to \<open>filepath.Join(dstBase, entryPathWithinJob)\<close>, with \<open>updateBytesCopied\<close> as the
  updater; the entry, with its hash, is marked complete and the manifest handed to the
  manager again. \<open>join\<close> stands for \<open>filepath.Join\<close>. A path that the manifest does not
  hold reads as the zero value of the entry.
\<close>

definition zeroArchiveFile :: SimpleFSArchiveFile where
  "zeroArchiveFile = \<lparr>State = ToDo, DirentType = FILE, Sha256SumHex = []\<rparr>"

definition doCopying_entry ::
  "(byte list \<Rightarrow> byte list) \<Rightarrow> (string \<Rightarrow> string \<Rightarrow> string) \<Rightarrow> archiveManager copier
     \<Rightarrow> (string \<rightharpoonup> byte list) \<Rightarrow> string \<Rightarrow> string \<Rightarrow> (string \<rightharpoonup> SimpleFSArchiveFile) \<Rightarrow> string
     \<Rightarrow> copy_error + (string \<rightharpoonup> SimpleFSArchiveFile) \<times> archiveManager copier" where
  "doCopying_entry sha256 join c srcDirFS jobID dstBase manifest entryPathWithinJob =
     (let entry =
            (case manifest entryPathWithinJob of None \<Rightarrow> zeroArchiveFile | Some e \<Rightarrow> e)
              \<lparr>State := InProgress\<rparr>;
          manifest1 = manifest(entryPathWithinJob \<mapsto> entry)
      in case updateManifest jobID manifest1 (counter c) of
           None \<Rightarrow> Inl NilMapPanic
         | Some m1 \<Rightarrow>
             (let localPath = join dstBase entryPathWithinJob in
              case srcDirFS entryPathWithinJob of
                None \<Rightarrow> Inl SrcLstatError
              | Some src \<Rightarrow>
                  (case copyRegularFile sha256 (c\<lparr>counter := m1\<rparr>) srcDirFS entryPathWithinJob
                          localPath entry (updateBytesCopied jobID) of
                     Inl e \<Rightarrow> Inl e
                   | Inr (entry1, c1) \<Rightarrow>
                       (let manifest2 = manifest1(entryPathWithinJob \<mapsto> entry1) in
                        case updateManifest jobID manifest2 (counter c1) of
                          None \<Rightarrow> Inl NilMapPanic
                        | Some m2 \<Rightarrow> Inr (manifest2, c1\<lparr>counter := m2\<rparr>)))))"

text \<open>
  The numbers \<open>ctxAwareCopy\<close> calls the updater with when it copies \<open>bs\<close> to the end, and
  a sequence of calls of the updater.
\<close>

function chunkSizes :: "byte list \<Rightarrow> int64 list" where
  "chunkSizes bs =
     (if 65536 \<le> length bs then 65536 # chunkSizes (drop 65536 bs) else [of_nat (length bs)])"
  by pat_completeness auto
termination
  by (relation "measure length") auto

declare chunkSizes.simps [simp del]

definition updaterCalls :: "(int64 \<Rightarrow> 's \<Rightarrow> 's) \<Rightarrow> int64 list \<Rightarrow> 's \<Rightarrow> 's" where
  "updaterCalls bytesUpdater deltas s = foldl (\<lambda>s1 delta. bytesUpdater delta s1) s deltas"

text \<open>Example values.\<close>

definition exHash :: "byte list \<Rightarrow> byte list" where
  "exHash bs = bs"

definition exSource :: "string \<rightharpoonup> byte list" where
  "exSource = [''a.txt'' \<mapsto> [104, 101, 108, 108, 111]]"

definition exCopier :: "byte list \<Rightarrow> int64 list copier" where
  "exCopier dst = \<lparr>localFiles = [''/w/u/a.txt'' \<mapsto> dst], ctxPolls = None, counter = []\<rparr>"

definition exEntry :: SimpleFSArchiveFile where
  "exEntry = \<lparr>State = InProgress, DirentType = FILE, Sha256SumHex = []\<rparr>"

definition logDelta :: "int64 \<Rightarrow> int64 list \<Rightarrow> int64 list" where
  "logDelta delta log = log @ [delta]"

definition exManifest :: "string \<rightharpoonup> SimpleFSArchiveFile" where
  "exManifest = [''a.txt'' \<mapsto> \<lparr>State = ToDo, DirentType = FILE, Sha256SumHex = []\<rparr>]"

definition exCopying :: "byte list \<Rightarrow> archiveManager copier" where
  "exCopying dst =
     \<lparr>localFiles = [''/w/u/a.txt'' \<mapsto> dst], ctxPolls = None,
      counter =
        \<lparr>Jobs = [''j'' \<mapsto> (exJobState ''j'' Copying)\<lparr>Manifest := exManifest, BytesTotal := 5,
                                                        BytesCopied := 2\<rparr>],
         jobCtxCancellers = [''j'' \<mapsto> ()], errors = Map.empty,
         indexingWorkerSignal = False, copyingWorkerSignal = True,
         zippingWorkerSignal = False\<rparr>\<rparr>"

definition exJoin :: "string \<Rightarrow> string \<Rightarrow> string" where
  "exJoin a b = a @ ''/'' @ b"

section \<open>Properties\<close>

subsection \<open>mapGetEnsureValue\<close>

lemma mapGetEnsureValue_result_stored:
  "fst (mapGetEnsureValue m key def) key = Some (snd (mapGetEnsureValue m key def))"
  by (simp add: mapGetEnsureValue_def map_get_def map_set_def Let_def split: option.splits)

text \<open>
  C9, as stated, fails: a key that is present with the value \<open>undefined\<close> is treated as
  absent, so the stored value is not what is returned and the map is changed.
\<close>

theorem mapGetEnsureValue_present_undefined_counterexample:
  "map_has [1::nat \<mapsto> (Undefined :: nat jsval)] 1
   \<and> snd (mapGetEnsureValue [1::nat \<mapsto> (Undefined :: nat jsval)] 1 (Value 7)) \<noteq> Undefined
   \<and> fst (mapGetEnsureValue [1::nat \<mapsto> (Undefined :: nat jsval)] 1 (Value 7))
       \<noteq> [1 \<mapsto> Undefined]"
proof -
  have "[1::nat \<mapsto> Value (7::nat)] 1 \<noteq> [1::nat \<mapsto> (Undefined :: nat jsval)] 1"
    by simp
  then have "[1::nat \<mapsto> Value (7::nat)] \<noteq> [1::nat \<mapsto> (Undefined :: nat jsval)]"
    by metis
  then show ?thesis
    by (simp add: mapGetEnsureValue_def map_get_def map_set_def map_has_def)
qed

text \<open>
  C9 (amended): when the key is present with a value other than \<open>undefined\<close>,
  \<open>mapGetEnsureValue\<close> returns that value and leaves the map unchanged; when the key is
  absent, or present with the value \<open>undefined\<close>, it stores the default under the key and
  returns the default; in every case the map afterwards holds the returned value under the
  key.
\<close>

theorem mapGetEnsureValue_spec:
  "(m key = Some v \<and> v \<noteq> Undefined \<longrightarrow> mapGetEnsureValue m key def = (m, v))
   \<and> (m key = None \<or> m key = Some Undefined \<longrightarrow>
        mapGetEnsureValue m key def = (m(key \<mapsto> def), def))
   \<and> fst (mapGetEnsureValue m key def) key = Some (snd (mapGetEnsureValue m key def))"
  by (auto simp: mapGetEnsureValue_def map_get_def map_set_def Let_def split: option.splits)

theorem mapGetEnsureValue_spec_witness:
  "mapGetEnsureValue [1::nat \<mapsto> Value (5::nat)] 1 (Value 9) = ([1 \<mapsto> Value 5], Value 5)
   \<and> mapGetEnsureValue (Map.empty :: (nat, nat) jsmap) 1 (Value 9) = ([1 \<mapsto> Value 9], Value 9)
   \<and> mapGetEnsureValue [1::nat \<mapsto> (Undefined :: nat jsval)] 1 (Value 9)
       = ([1 \<mapsto> Value 9], Value 9)"
  using mapGetEnsureValue_spec [of "[1::nat \<mapsto> Value (5::nat)]" 1 "Value 5" "Value 9"]
    mapGetEnsureValue_spec [of "Map.empty :: (nat, nat) jsmap" 1 "Value 0" "Value 9"]
    mapGetEnsureValue_spec [of "[1::nat \<mapsto> (Undefined :: nat jsval)]" 1 "Value 0" "Value 9"]
  by simp

subsection \<open>notifyProgress\<close>

lemma notifyProgress_report:
  "snd (notifyProgress c jobID p) =
     (jobID, messagesComplete (fst (notifyProgress c jobID p)), messagesTotal c)"
  by (simp add: notifyProgress_def Let_def)

lemma notifyProgress_total: "messagesTotal (fst (notifyProgress c jobID p)) = messagesTotal c"
  by (simp add: notifyProgress_def Let_def)

lemma notifyProgress_clamped:
  "sint (messagesComplete (fst (notifyProgress c jobID p))) \<le> sint (messagesTotal c)"
  by (simp add: notifyProgress_def Let_def word_sless_alt)

lemma notifyProgress_within: "report_within_total (snd (notifyProgress c jobID p))"
  using notifyProgress_clamped [of c jobID p]
  by (simp add: notifyProgress_report report_within_total_def)

lemma notifyProgressAll_within:
  "list_all report_within_total (snd (notifyProgressAll c jobID ps))"
proof (induction ps arbitrary: c)
  case Nil
  show ?case by simp
next
  case (Cons p ps)
  obtain c1 r where step: "notifyProgress c jobID p = (c1, r)"
    by (cases "notifyProgress c jobID p")
  obtain c2 rs where rest: "notifyProgressAll c1 jobID ps = (c2, rs)"
    by (cases "notifyProgressAll c1 jobID ps")
  have "report_within_total r"
    using notifyProgress_within [of c jobID p] step by simp
  moreover have "list_all report_within_total rs"
    using Cons.IH [of c1] rest by simp
  ultimately show ?case
    by (simp add: step rest)
qed

text \<open>
  C10: for every sequence of page notifications, every report sent has a completed count
  that is at most the total (as signed 64-bit numbers); one notification adds the page's
  \<open>Num\<close> to the running count, replaces the count by the total when it exceeds the total
  or the page is the last one, and reports the count so obtained.
\<close>

theorem notifyProgress_never_over_reports:
  "list_all report_within_total (snd (notifyProgressAll c jobID ps))
   \<and> messagesComplete (fst (notifyProgress c jobID p)) =
       (if word_sless (messagesTotal c) (messagesComplete c + word_of_int (Num p)) \<or> Last p
        then messagesTotal c else messagesComplete c + word_of_int (Num p))
   \<and> snd (notifyProgress c jobID p) =
       (jobID, messagesComplete (fst (notifyProgress c jobID p)), messagesTotal c)"
  using notifyProgressAll_within [of c jobID ps]
  by (simp add: notifyProgress_def Let_def)

subsection \<open>Chat archive registry: List, Pause, Resume\<close>

lemma Less_jobKey: "Less x y \<longleftrightarrow> jobKey x < jobKey y"
proof -
  have "StartedAt x = StartedAt y \<longleftrightarrow> sint (StartedAt x) = sint (StartedAt y)"
    by (rule word_eq_iff_signed)
  then show ?thesis
    by (auto simp: Less_def jobKey_def word_sless_alt less_prod_def)
qed

lemma not_Less_jobKey: "\<not> Less x y \<longleftrightarrow> jobKey y \<le> jobKey x"
  by (simp add: Less_jobKey not_less)

lemma mset_insertJob: "mset (insertJob x xs) = add_mset x (mset xs)"
  by (induction xs) simp_all

lemma mset_sortJobs: "mset (sortJobs xs) = mset xs"
  by (induction xs) (simp_all add: sortJobs_def mset_insertJob)

lemma set_insertJob: "set (insertJob x xs) = insert x (set xs)"
  by (induction xs) auto

lemma sorted_insertJob:
  "sorted (map jobKey xs) \<Longrightarrow> sorted (map jobKey (insertJob x xs))"
  by (induction xs) (auto simp: set_insertJob Less_jobKey not_less)

lemma sorted_sortJobs: "sorted (map jobKey (sortJobs xs))"
  by (induction xs) (simp_all add: sortJobs_def sorted_insertJob)

lemma sortJobs_unique:
  assumes "mset xs = mset ys" and "inj_on jobKey (set xs)"
  shows "sortJobs xs = sortJobs ys"
proof -
  have "mset (map jobKey (sortJobs xs)) = mset (map jobKey (sortJobs ys))"
    using assms(1) by (simp add: mset_sortJobs)
  then have "map jobKey (sortJobs xs) = map jobKey (sortJobs ys)"
    using sorted_sortJobs
    by (metis properties_for_sort)
  moreover have "set (sortJobs xs) = set xs" "set (sortJobs ys) = set xs"
    using assms(1) mset_sortJobs by (metis set_mset_mset)+
  ultimately show ?thesis
    using assms(2) by (simp add: inj_on_map_eq_map)
qed

lemma started_then_id_before_jobKey: "started_then_id_before x y \<longleftrightarrow> jobKey x < jobKey y"
  by (auto simp: started_then_id_before_def jobKey_def less_prod_def)

lemma set_map_filter_history:
  "set order = dom h \<Longrightarrow> set (List.map_filter h order) = ran h"
  by (auto simp: map_filter_def ran_def dom_def image_iff) force

lemma mset_map_filter_cong:
  "mset xs = mset ys \<Longrightarrow> mset (List.map_filter f xs) = mset (List.map_filter f ys)"
  by (simp add: map_filter_def)

lemma inj_on_jobKey_ran: "keyed_by_JobID h \<Longrightarrow> inj_on jobKey (ran h)"
  by (auto simp: inj_on_def ran_def keyed_by_JobID_def jobKey_def)

lemma distinct_map_filter_history:
  assumes "keyed_by_JobID h" "distinct order"
  shows "distinct (map jobKey (List.map_filter h order))"
proof -
  have "inj_on (\<lambda>k. jobKey (the (h k))) {k \<in> set order. h k \<noteq> None}"
    using assms(1) by (auto simp: inj_on_def keyed_by_JobID_def jobKey_def)
  then show ?thesis
    using assms(2) by (simp add: map_filter_def distinct_map comp_def)
qed

lemma any_sort_by_Less_unique:
  assumes "mset ys = mset xs" and "inj_on jobKey (set xs)"
    and "sorted_wrt (\<lambda>x y. \<not> Less y x) ys"
  shows "ys = sortJobs xs"
proof -
  have "sorted_wrt (\<le>) (map jobKey ys)"
    using assms(3) by (simp add: sorted_wrt_map not_Less_jobKey)
  moreover have "mset (map jobKey ys) = mset (map jobKey (sortJobs xs))"
    using assms(1) by (simp add: mset_sortJobs)
  ultimately have "map jobKey ys = map jobKey (sortJobs xs)"
    using sorted_sortJobs by (metis properties_for_sort)
  moreover have "set ys = set xs" "set (sortJobs xs) = set xs"
    using assms(1) mset_sortJobs by (metis set_mset_mset)+
  ultimately show ?thesis
    using assms(2) by (simp add: inj_on_map_eq_map)
qed

text \<open>
  C6: on a registry whose initialisation succeeds, \<open>List\<close> returns exactly the jobs of the
  history, as many as the history has keys, in ascending order of \<open>startedAt\<close> with ties
  broken by ascending job ID: no job of the list comes before an earlier one in that
  order. When the history stores every job under its own job ID, as \<open>Set\<close> does, the order
  is strict, the list is the same for every order in which Go enumerates the map, and it
  is the only arrangement of these jobs that is sorted by \<open>Less\<close>: what every correct sort
  returns.
\<close>

theorem List_sorted_deterministic:
  assumes "initLocked r = Inr r1"
    and "distinct order" and "set order = dom (jobHistory r1)"
  shows "\<exists>jobs. List r order = (Inr jobs, r1)
           \<and> set jobs = ran (jobHistory r1)
           \<and> length jobs = card (dom (jobHistory r1))
           \<and> sorted_wrt (\<lambda>x y. \<not> started_then_id_before y x) jobs
           \<and> (keyed_by_JobID (jobHistory r1) \<longrightarrow>
                sorted_wrt started_then_id_before jobs
                \<and> (\<forall>order'. distinct order' \<and> set order' = dom (jobHistory r1)
                      \<longrightarrow> List r order' = (Inr jobs, r1))
                \<and> (\<forall>ys. mset ys = mset jobs \<and> sorted_wrt (\<lambda>x y. \<not> Less y x) ys
                      \<longrightarrow> ys = jobs))"
proof -
  let ?h = "jobHistory r1"
  let ?xs = "List.map_filter ?h order"
  let ?jobs = "sortJobs ?xs"
  have list: "List r order = (Inr ?jobs, r1)"
    using assms(1) by (simp add: List_def)
  have set_xs: "set ?xs = ran ?h"
    using assms(3) by (rule set_map_filter_history)
  have set_jobs: "set ?jobs = ran ?h"
    using set_xs mset_sortJobs by (metis set_mset_mset)
  have len_xs: "length ?xs = length order"
    using assms(3) by (auto simp: map_filter_def dom_def intro!: arg_cong [where f = length] filter_True)
  have len: "length ?jobs = card (dom ?h)"
    using len_xs assms(2,3) mset_sortJobs [of ?xs]
    by (metis distinct_card size_mset)
  have "sorted_wrt (\<le>) (map jobKey ?jobs)"
    using sorted_sortJobs by simp
  then have weak: "sorted_wrt (\<lambda>x y. \<not> started_then_id_before y x) ?jobs"
    by (simp add: sorted_wrt_map started_then_id_before_jobKey [abs_def] not_less)
  have strict: "sorted_wrt started_then_id_before ?jobs" if keyed: "keyed_by_JobID ?h"
  proof -
    have "distinct (map jobKey ?xs)"
      using keyed assms(2) by (rule distinct_map_filter_history)
    moreover have "mset (map jobKey ?jobs) = mset (map jobKey ?xs)"
      by (simp add: mset_sortJobs)
    ultimately have "distinct (map jobKey ?jobs)"
      by (metis mset_eq_imp_distinct_iff)
    then have "sorted_wrt (<) (map jobKey ?jobs)"
      using sorted_sortJobs by (simp add: strict_sorted_iff)
    then show ?thesis
      by (simp add: sorted_wrt_map started_then_id_before_jobKey [abs_def])
  qed
  have det: "List r order' = (Inr ?jobs, r1)"
    if keyed: "keyed_by_JobID ?h" and "distinct order'" "set order' = dom ?h" for order'
  proof -
    have "mset order' = mset order"
      using that assms(2,3) by (metis set_eq_iff_mset_eq_distinct)
    then have "mset (List.map_filter ?h order') = mset ?xs"
      by (rule mset_map_filter_cong)
    moreover have "inj_on jobKey (set (List.map_filter ?h order'))"
      using inj_on_jobKey_ran [OF keyed] that(3) by (simp add: set_map_filter_history)
    ultimately have "sortJobs (List.map_filter ?h order') = ?jobs"
      by (rule sortJobs_unique)
    then show ?thesis
      using assms(1) by (simp add: List_def)
  qed
  have uniq: "ys = ?jobs"
    if keyed: "keyed_by_JobID ?h" and "mset ys = mset ?jobs"
      and "sorted_wrt (\<lambda>x y. \<not> Less y x) ys" for ys
  proof -
    have "mset ys = mset ?xs"
      using that(2) by (simp add: mset_sortJobs)
    moreover have "inj_on jobKey (set ?xs)"
      using inj_on_jobKey_ran [OF keyed] set_xs by simp
    ultimately show ?thesis
      using that(3) by (rule any_sort_by_Less_unique)
  qed
  show ?thesis
    using list set_jobs len weak strict det uniq by blast
qed

lemma exRegistry_init: "initLocked exRegistry = Inr exRegistry"
  by (simp add: initLocked_def exRegistry_def)

lemma exRegistry_keyed: "keyed_by_JobID (jobHistory exRegistry)"
  by (auto simp: keyed_by_JobID_def exRegistry_def exJob_def split: if_splits)

lemma ex_List:
  "List exRegistry [''a'', ''b'', ''c'', ''d''] =
     (Inr [exJob ''c'' 3 RUNNING, exJob ''d'' 5 PAUSED, exJob ''a'' 7 RUNNING,
           exJob ''b'' 7 COMPLETE], exRegistry)"
  by (simp add: List_def exRegistry_init)
     (simp add: exRegistry_def map_filter_def sortJobs_def Less_def exJob_def word_sless_alt)

theorem List_sorted_deterministic_witness:
  "List exRegistry [''d'', ''b'', ''a'', ''c''] =
     (Inr [exJob ''c'' 3 RUNNING, exJob ''d'' 5 PAUSED, exJob ''a'' 7 RUNNING,
           exJob ''b'' 7 COMPLETE], exRegistry)
   \<and> sorted_wrt started_then_id_before
        [exJob ''c'' 3 RUNNING, exJob ''d'' 5 PAUSED, exJob ''a'' 7 RUNNING,
         exJob ''b'' 7 COMPLETE]"
proof -
  have dom: "set [''a'', ''b'', ''c'', ''d''] = dom (jobHistory exRegistry)"
    by (auto simp: exRegistry_def split: if_splits)
  have dom': "set [''d'', ''b'', ''a'', ''c''] = dom (jobHistory exRegistry)"
    by (auto simp: exRegistry_def split: if_splits)
  from List_sorted_deterministic [OF exRegistry_init _ dom] exRegistry_keyed
  obtain jobs where
    j: "List exRegistry [''a'', ''b'', ''c'', ''d''] = (Inr jobs, exRegistry)"
    and s: "sorted_wrt started_then_id_before jobs"
    and d: "\<forall>order'. distinct order' \<and> set order' = dom (jobHistory exRegistry)
              \<longrightarrow> List exRegistry order' = (Inr jobs, exRegistry)"
    by auto
  have "jobs = [exJob ''c'' 3 RUNNING, exJob ''d'' 5 PAUSED, exJob ''a'' 7 RUNNING,
           exJob ''b'' 7 COMPLETE]"
    using j ex_List by simp
  moreover have "List exRegistry [''d'', ''b'', ''a'', ''c''] = (Inr jobs, exRegistry)"
    using d dom' by simp
  ultimately show ?thesis using s by simp
qed

text \<open>
  C4: on a registry whose initialisation succeeds, \<open>Pause\<close> answers the not-found error
  when the history has no record of the job, and when the record is \<open>RUNNING\<close> but no
  cancel handle is registered; it answers an error that is not the not-found error when
  the record is not \<open>RUNNING\<close>; and when the record is \<open>RUNNING\<close> with a (non-nil) handle
  registered it invokes the handle, stores the job the handle answers with status
  \<open>PAUSED\<close>, and removes the handle, leaving every other job as it was.
\<close>

theorem Pause_contract:
  assumes "initLocked r = Inr r1"
  shows "(jobHistory r1 jobID = None \<longrightarrow>
            Pause r jobID = (Some (ArchiveJobNotFoundError jobID), r1))
    \<and> (\<forall>job. jobHistory r1 jobID = Some job \<and> Status job = RUNNING
                \<and> runningJobs r1 jobID = None \<longrightarrow>
            Pause r jobID = (Some (ArchiveJobNotFoundError jobID), r1))
    \<and> (\<forall>job. jobHistory r1 jobID = Some job \<and> Status job \<noteq> RUNNING \<longrightarrow>
            Pause r jobID = (Some (CannotPauseNonRunning (Status job)), r1)
            \<and> CannotPauseNonRunning (Status job) \<noteq> ArchiveJobNotFoundError jobID)
    \<and> (\<forall>job snapshot. jobHistory r1 jobID = Some job \<and> Status job = RUNNING
                \<and> runningJobs r1 jobID = Some (CancelFn snapshot) \<longrightarrow>
            fst (Pause r jobID) = None
            \<and> effects (snd (Pause r jobID)) = effects r1 @ [CancelInvoked jobID]
            \<and> jobHistory (snd (Pause r jobID)) jobID = Some (snapshot\<lparr>Status := PAUSED\<rparr>)
            \<and> runningJobs (snd (Pause r jobID)) jobID = None
            \<and> (\<forall>k. k \<noteq> jobID \<longrightarrow>
                  jobHistory (snd (Pause r jobID)) k = jobHistory r1 k
                  \<and> runningJobs (snd (Pause r jobID)) k = runningJobs r1 k))"
  using assms by (simp add: Pause_def)

theorem Pause_contract_witness:
  "Pause exRegistry ''zz'' = (Some (ArchiveJobNotFoundError ''zz''), exRegistry)
   \<and> Pause exRegistry ''c'' = (Some (ArchiveJobNotFoundError ''c''), exRegistry)
   \<and> Pause exRegistry ''b'' = (Some (CannotPauseNonRunning COMPLETE), exRegistry)
   \<and> fst (Pause exRegistry ''a'') = None
   \<and> effects (snd (Pause exRegistry ''a'')) = [CancelInvoked ''a'']
   \<and> map_option Status (jobHistory (snd (Pause exRegistry ''a'')) ''a'') = Some PAUSED
   \<and> runningJobs (snd (Pause exRegistry ''a'')) ''a'' = None"
  using Pause_contract [OF exRegistry_init, of "''zz''"]
    Pause_contract [OF exRegistry_init, of "''c''"]
    Pause_contract [OF exRegistry_init, of "''b''"]
    Pause_contract [OF exRegistry_init, of "''a''"]
  by (simp add: exRegistry_def exJob_def)

text \<open>
  C5, as stated, fails: \<open>Resume\<close> of a job whose status is \<open>COMPLETE\<close> produces an error.
\<close>

theorem Resume_complete_counterexample:
  "jobHistory exRegistry ''b'' = Some (exJob ''b'' 7 COMPLETE)
   \<and> fst (Resume exRegistry ''b'') = Some (CannotResumeNonPaused COMPLETE)"
  by (simp add: Resume_def exRegistry_init) (simp add: exRegistry_def exJob_def)

text \<open>
  C5 (amended): on a registry whose initialisation succeeds, \<open>Resume\<close> of a job whose
  status is \<open>COMPLETE\<close> answers the error that a non-paused job cannot be resumed; no
  executor is started and the registry, with the job's record, is as initialisation left it.
\<close>

theorem Resume_complete_rejected:
  assumes "initLocked r = Inr r1" and "jobHistory r1 jobID = Some job"
    and "Status job = COMPLETE"
  shows "Resume r jobID = (Some (CannotResumeNonPaused COMPLETE), r1)"
  using assms by (simp add: Resume_def)

theorem Resume_complete_rejected_witness:
  "Resume exRegistry ''b'' = (Some (CannotResumeNonPaused COMPLETE), exRegistry)"
  using Resume_complete_rejected [OF exRegistry_init, of "''b''" "exJob ''b'' 7 COMPLETE"]
  by (simp add: exRegistry_def exJob_def)

subsection \<open>KBFS archive manager: a failing stage\<close>

lemma startWorkerTask_claimed:
  assumes "startWorkerTask m order eligible working = (Some jobID, m1)"
  shows "\<exists>job. Jobs m jobID = Some job \<and> Phase job = eligible
           \<and> Jobs m1 = (Jobs m)(jobID \<mapsto> job\<lparr>Phase := working\<rparr>)
           \<and> errors m1 = errors m
           \<and> jobCtxCancellers m1 = (jobCtxCancellers m)(jobID \<mapsto> ())"
proof -
  from assms have f: "find (\<lambda>j. map_option Phase (Jobs m j) = Some eligible) order = Some jobID"
    by (auto simp: startWorkerTask_def split: option.splits)
  then have "map_option Phase (Jobs m jobID) = Some eligible"
    by (auto simp: find_Some_iff)
  then obtain job where j: "Jobs m jobID = Some job" "Phase job = eligible"
    by auto
  with assms f show ?thesis
    by (auto simp: startWorkerTask_def changeJobPhaseLocked_def)
qed

lemma updateManifest_keeps:
  assumes "Jobs m jobID = Some job"
  shows "\<exists>m1 job1. updateManifest jobID manifest m = Some m1 \<and> Jobs m1 jobID = Some job1
           \<and> Phase job1 = Phase job \<and> errors m1 = errors m
           \<and> jobCtxCancellers m1 = jobCtxCancellers m
           \<and> copyingWorkerSignal m1 = copyingWorkerSignal m"
  using assms by (simp add: updateManifest_def)

lemma updateBytesCopied_keeps:
  assumes "Jobs m jobID = Some job"
  shows "\<exists>job1. Jobs (updateBytesCopied jobID delta m) jobID = Some job1
           \<and> Phase job1 = Phase job \<and> errors (updateBytesCopied jobID delta m) = errors m
           \<and> jobCtxCancellers (updateBytesCopied jobID delta m) = jobCtxCancellers m"
  using assms by (simp add: updateBytesCopied_def jobOrZero_def)

lemma copyCalls_keeps:
  assumes "Jobs m jobID = Some job"
  shows "\<exists>m1 job1. copyCalls jobID cs m = Some m1 \<and> Jobs m1 jobID = Some job1
           \<and> Phase job1 = Phase job \<and> errors m1 = errors m
           \<and> jobCtxCancellers m1 = jobCtxCancellers m"
  using assms
proof (induction cs arbitrary: m job)
  case Nil
  then show ?case by simp
next
  case (Cons c cs)
  show ?case
  proof (cases c)
    case (UpdateManifest manifest)
    from updateManifest_keeps [OF Cons.prems, of manifest]
    obtain m1 job1 where s: "updateManifest jobID manifest m = Some m1"
      "Jobs m1 jobID = Some job1" "Phase job1 = Phase job" "errors m1 = errors m"
      "jobCtxCancellers m1 = jobCtxCancellers m"
      by blast
    from Cons.IH [OF s(2)] s show ?thesis
      by (simp add: UpdateManifest)
  next
    case (UpdateBytesCopied delta)
    from updateBytesCopied_keeps [OF Cons.prems, of delta]
    obtain job1 where s: "Jobs (updateBytesCopied jobID delta m) jobID = Some job1"
      "Phase job1 = Phase job" "errors (updateBytesCopied jobID delta m) = errors m"
      "jobCtxCancellers (updateBytesCopied jobID delta m) = jobCtxCancellers m"
      by blast
    from Cons.IH [OF s(1)] s show ?thesis
      by (simp add: UpdateBytesCopied)
  qed
qed

lemma zipCalls_keeps:
  assumes "Jobs m jobID = Some job"
  shows "\<exists>job1. Jobs (zipCalls jobID ds m) jobID = Some job1
           \<and> Phase job1 = Phase job \<and> errors (zipCalls jobID ds m) = errors m
           \<and> jobCtxCancellers (zipCalls jobID ds m) = jobCtxCancellers m"
proof (induction ds rule: rev_induct)
  case Nil
  show ?case using assms by (simp add: zipCalls_def resetBytesZipped_def jobOrZero_def)
next
  case (snoc d ds)
  then show ?case
    by (auto simp: zipCalls_def updateBytesZipped_def jobOrZero_def)
qed

lemma doIndexing_failure: "doIndexing m jobID (Inl e) = (Some e, m)"
  by (simp add: doIndexing_def)

text \<open>
  C2, as stated, fails: when indexing fails, the error record is made with a retry time 60
  seconds later, but the phase of the job stays \<open>Indexing\<close>; it is not set to \<open>Error\<close>.
\<close>

theorem indexingWorker_failure_counterexample:
  "errors (indexingWorker exManager [''c'', ''q'', ''i''] (Inl ''boom'') 5) ''q''
     = Some \<lparr>err = ''boom'', nextRetry = 5 + 60 * second\<rparr>
   \<and> map_option Phase (Jobs (indexingWorker exManager [''c'', ''q'', ''i''] (Inl ''boom'') 5) ''q'')
     = Some Indexing
   \<and> map_option Phase (Jobs (indexingWorker exManager [''c'', ''q'', ''i''] (Inl ''boom'') 5) ''q'')
     \<noteq> Some Error"
  by (simp add: indexingWorker_def startWorkerTask_def exManager_def exJobState_def
      changeJobPhaseLocked_def doIndexing_def setJobError_def signalIndexing_def
      archiveErrorRetryDuration_def)

text \<open>
  C2 (amended): when a stage worker has claimed a job and its stage (indexing, copying or
  zipping) fails with an error, an error record is made for the job, holding the error and
  a retry time 60 seconds after the time of the failure, and the job stays in the working
  phase of that stage (\<open>Indexing\<close>, \<open>Copying\<close> or \<open>Zipping\<close>).
\<close>

theorem worker_failure_records_retry:
  "(fst (startWorkerTask (m\<lparr>indexingWorkerSignal := False\<rparr>) order Queued Indexing) = Some jobID
      \<longrightarrow> failed_in (indexingWorker m order (Inl e) now) jobID e now Indexing)
   \<and> (fst (startWorkerTask (m\<lparr>copyingWorkerSignal := False\<rparr>) order Indexed Copying) = Some jobID
      \<longrightarrow> (\<exists>m'. copyingWorker m order (calls, Some e) now = Some m'
                \<and> failed_in m' jobID e now Copying))
   \<and> (fst (startWorkerTask (m\<lparr>zippingWorkerSignal := False\<rparr>) order Copied Zipping) = Some jobID
      \<longrightarrow> failed_in (zippingWorker m order (deltas, Some e) now) jobID e now Zipping)"
proof (intro conjI impI)
  assume a: "fst (startWorkerTask (m\<lparr>indexingWorkerSignal := False\<rparr>) order Queued Indexing) = Some jobID"
  obtain m1 where s: "startWorkerTask (m\<lparr>indexingWorkerSignal := False\<rparr>) order Queued Indexing = (Some jobID, m1)"
    using a by (cases "startWorkerTask (m\<lparr>indexingWorkerSignal := False\<rparr>) order Queued Indexing") simp
  from startWorkerTask_claimed [OF s] obtain job where
    "Jobs m1 = (Jobs (m\<lparr>indexingWorkerSignal := False\<rparr>))(jobID \<mapsto> job\<lparr>Phase := Indexing\<rparr>)"
    by blast
  then show "failed_in (indexingWorker m order (Inl e) now) jobID e now Indexing"
    by (simp add: indexingWorker_def s doIndexing_failure setJobError_def failed_in_def
        archiveErrorRetryDuration_def signalIndexing_def)
next
  assume a: "fst (startWorkerTask (m\<lparr>copyingWorkerSignal := False\<rparr>) order Indexed Copying) = Some jobID"
  obtain m1 where s: "startWorkerTask (m\<lparr>copyingWorkerSignal := False\<rparr>) order Indexed Copying = (Some jobID, m1)"
    using a by (cases "startWorkerTask (m\<lparr>copyingWorkerSignal := False\<rparr>) order Indexed Copying") simp
  from startWorkerTask_claimed [OF s] obtain job where
    j: "Jobs m1 = (Jobs (m\<lparr>copyingWorkerSignal := False\<rparr>))(jobID \<mapsto> job\<lparr>Phase := Copying\<rparr>)"
    by blast
  then have "Jobs (signalCopying m1) jobID = Some (job\<lparr>Phase := Copying\<rparr>)"
    by (simp add: signalCopying_def)
  from copyCalls_keeps [OF this, of calls]
  obtain m2 job2 where c: "copyCalls jobID calls (signalCopying m1) = Some m2"
    "Jobs m2 jobID = Some job2" "Phase job2 = Copying"
    by auto
  then show "\<exists>m'. copyingWorker m order (calls, Some e) now = Some m' \<and> failed_in m' jobID e now Copying"
    by (simp add: copyingWorker_def s setJobError_def failed_in_def archiveErrorRetryDuration_def)
next
  assume a: "fst (startWorkerTask (m\<lparr>zippingWorkerSignal := False\<rparr>) order Copied Zipping) = Some jobID"
  obtain m1 where s: "startWorkerTask (m\<lparr>zippingWorkerSignal := False\<rparr>) order Copied Zipping = (Some jobID, m1)"
    using a by (cases "startWorkerTask (m\<lparr>zippingWorkerSignal := False\<rparr>) order Copied Zipping") simp
  from startWorkerTask_claimed [OF s] obtain job where
    j: "Jobs m1 = (Jobs (m\<lparr>zippingWorkerSignal := False\<rparr>))(jobID \<mapsto> job\<lparr>Phase := Zipping\<rparr>)"
    by blast
  then have "Jobs (signalZipping m1) jobID = Some (job\<lparr>Phase := Zipping\<rparr>)"
    by (simp add: signalZipping_def)
  from zipCalls_keeps [OF this, of deltas]
  obtain job2 where c: "Jobs (zipCalls jobID deltas (signalZipping m1)) jobID = Some job2"
    "Phase job2 = Zipping"
    by auto
  then show "failed_in (zippingWorker m order (deltas, Some e) now) jobID e now Zipping"
    by (simp add: zippingWorker_def s setJobError_def failed_in_def archiveErrorRetryDuration_def Let_def)
qed

lemma exManager_claims:
  "fst (startWorkerTask (exManager\<lparr>indexingWorkerSignal := False\<rparr>) [''c'', ''q'', ''i''] Queued Indexing) = Some ''q''"
  "fst (startWorkerTask (exManager\<lparr>copyingWorkerSignal := False\<rparr>) [''c'', ''q'', ''i''] Indexed Copying) = Some ''i''"
  "fst (startWorkerTask (exManager\<lparr>zippingWorkerSignal := False\<rparr>) [''c'', ''q'', ''i''] Copied Zipping) = Some ''c''"
  by (simp_all add: startWorkerTask_def exManager_def exJobState_def)

theorem worker_failure_records_retry_witness:
  "failed_in (indexingWorker exManager [''c'', ''q'', ''i''] (Inl ''boom'') 5) ''q'' ''boom'' 5 Indexing
   \<and> (\<exists>m'. copyingWorker exManager [''c'', ''q'', ''i''] ([UpdateBytesCopied 3], Some ''boom'') 5 = Some m'
          \<and> failed_in m' ''i'' ''boom'' 5 Copying)
   \<and> failed_in (zippingWorker exManager [''c'', ''q'', ''i''] ([3], Some ''boom'') 5) ''c'' ''boom'' 5 Zipping"
  using worker_failure_records_retry [of exManager "[''c'', ''q'', ''i'']" "''q''" "''boom''" 5]
    worker_failure_records_retry [of exManager "[''c'', ''q'', ''i'']" "''i''" "''boom''" 5 "[UpdateBytesCopied 3]"]
    worker_failure_records_retry [of exManager "[''c'', ''q'', ''i'']" "''c''" "''boom''" 5 _ "[3]"]
  by (simp add: exManager_claims)

subsection \<open>KBFS archive manager: error retry\<close>

lemma dueForRetry_cong:
  "Jobs m' j = Jobs m j \<Longrightarrow> errors m' j = errors m j \<Longrightarrow> dueForRetry now m' j = dueForRetry now m j"
  by (simp add: dueForRetry_def jobOrZero_def)

lemma resetInterruptedPhaseLocked_working:
  "workingPhase (Phase (jobOrZero m j)) \<Longrightarrow>
     resetInterruptedPhaseLocked m j =
       (True, m\<lparr>Jobs := (Jobs m)(j := map_option revertPhase (Jobs m j))\<rparr>)"
  by (cases "Jobs m j")
     (auto simp: resetInterruptedPhaseLocked_def workingPhase_def jobOrZero_def zeroJobState_def
       changeJobPhaseLocked_def revertPhase_def eligiblePhaseOf_def)

lemma resetInterruptedPhaseLocked_other:
  "\<not> workingPhase (Phase (jobOrZero m j)) \<Longrightarrow> resetInterruptedPhaseLocked m j = (False, m)"
  by (cases "Phase (jobOrZero m j)") (simp_all add: resetInterruptedPhaseLocked_def workingPhase_def)

lemma retryJob_due:
  "dueForRetry now m j \<Longrightarrow>
     retryJob now m j =
       m\<lparr>Jobs := (Jobs m)(j := map_option revertPhase (Jobs m j)),
         errors := (errors m)(j := None),
         indexingWorkerSignal := True, copyingWorkerSignal := True, zippingWorkerSignal := True\<rparr>"
  by (auto simp: dueForRetry_def retryJob_def resetInterruptedPhaseLocked_working
      signalIndexing_def signalCopying_def signalZipping_def split: option.splits)

lemma retryJob_not_due: "\<not> dueForRetry now m j \<Longrightarrow> retryJob now m j = m"
  by (auto simp: dueForRetry_def retryJob_def resetInterruptedPhaseLocked_other
      resetInterruptedPhaseLocked_working split: option.splits)

lemma retryJob_signals: "allSignalled m \<Longrightarrow> allSignalled (retryJob now m j)"
  by (cases "dueForRetry now m j") (simp_all add: retryJob_due retryJob_not_due allSignalled_def)

lemma retry_fold:
  "Jobs (foldl (retryJob now) m ids) k =
     (if k \<in> set ids \<and> dueForRetry now m k then map_option revertPhase (Jobs m k) else Jobs m k)
   \<and> errors (foldl (retryJob now) m ids) k =
     (if k \<in> set ids \<and> dueForRetry now m k then None else errors m k)"
proof (induction ids arbitrary: k rule: rev_induct)
  case Nil
  show ?case by simp
next
  case (snoc j ids)
  let ?m' = "foldl (retryJob now) m ids"
  show ?case
  proof (cases "dueForRetry now ?m' j")
    case True
    then have e: "errors ?m' j \<noteq> None"
      by (auto simp: dueForRetry_def split: option.splits)
    with snoc.IH [of j] have "\<not> (j \<in> set ids \<and> dueForRetry now m j)"
      by auto
    with snoc.IH [of j] have same: "Jobs ?m' j = Jobs m j" "errors ?m' j = errors m j"
      by auto
    then have "dueForRetry now m j"
      using True dueForRetry_cong by blast
    with True same snoc.IH [of k] show ?thesis
      by (auto simp: retryJob_due)
  next
    case False
    have "\<not> dueForRetry now m j \<or> j \<in> set ids"
    proof (rule ccontr)
      assume "\<not> (\<not> dueForRetry now m j \<or> j \<in> set ids)"
      then have d: "dueForRetry now m j" and n: "j \<notin> set ids" by auto
      from n snoc.IH [of j] have "Jobs ?m' j = Jobs m j" "errors ?m' j = errors m j"
        by auto
      with d False dueForRetry_cong show False by blast
    qed
    with False snoc.IH [of k] show ?thesis
      by (auto simp: retryJob_not_due)
  qed
qed

lemma retry_fold_signals:
  "k \<in> set ids \<Longrightarrow> dueForRetry now m k \<Longrightarrow> allSignalled (foldl (retryJob now) m ids)"
proof (induction ids rule: rev_induct)
  case Nil
  then show ?case by simp
next
  case (snoc j ids)
  let ?m' = "foldl (retryJob now) m ids"
  show ?case
  proof (cases "k \<in> set ids")
    case True
    with snoc show ?thesis by (simp add: retryJob_signals)
  next
    case False
    with snoc.prems have jk: "j = k" by simp
    from False retry_fold [of now m ids k]
    have "Jobs ?m' k = Jobs m k" "errors ?m' k = errors m k" by auto
    with snoc.prems(2) have "dueForRetry now ?m' k"
      using dueForRetry_cong by blast
    then show ?thesis
      by (simp add: jk retryJob_due allSignalled_def)
  qed
qed

text \<open>
  C3: for a job of the manager with an error record whose retry time is not after \<open>now\<close>,
  one tick of the retry worker puts the job back from \<open>Indexing\<close> to \<open>Queued\<close>, from
  \<open>Copying\<close> to \<open>Indexed\<close> and from \<open>Zipping\<close> to \<open>Copied\<close>; it then removes the error
  record and leaves a token in each of the three stage signals. In any other phase the
  job and its error record are left as they were. This holds for every order in which the
  map of jobs is enumerated.
\<close>

theorem errorRetryWorker_reverts:
  assumes "set order = dom (Jobs m)"
    and "Jobs m jobID = Some job"
    and "errors m jobID = Some errState"
    and "nextRetry errState \<le> now"
  shows "(Phase job = Indexing \<longrightarrow>
            Jobs (errorRetryWorker now order m) jobID = Some (job\<lparr>Phase := Queued\<rparr>))
         \<and> (Phase job = Copying \<longrightarrow>
            Jobs (errorRetryWorker now order m) jobID = Some (job\<lparr>Phase := Indexed\<rparr>))
         \<and> (Phase job = Zipping \<longrightarrow>
            Jobs (errorRetryWorker now order m) jobID = Some (job\<lparr>Phase := Copied\<rparr>))
         \<and> (Phase job \<in> {Indexing, Copying, Zipping} \<longrightarrow>
            errors (errorRetryWorker now order m) jobID = None
            \<and> indexingWorkerSignal (errorRetryWorker now order m)
            \<and> copyingWorkerSignal (errorRetryWorker now order m)
            \<and> zippingWorkerSignal (errorRetryWorker now order m))
         \<and> (Phase job \<notin> {Indexing, Copying, Zipping} \<longrightarrow>
            Jobs (errorRetryWorker now order m) jobID = Some job
            \<and> errors (errorRetryWorker now order m) jobID = Some errState)"
proof -
  let ?ids = "replicate (length order) [] @ order"
  have mem: "jobID \<in> set ?ids"
    using assms(1,2) by auto
  have due: "dueForRetry now m jobID \<longleftrightarrow> workingPhase (Phase job)"
    using assms(2,3,4) by (simp add: dueForRetry_def jobOrZero_def)
  have sig: "allSignalled (errorRetryWorker now order m)" if "workingPhase (Phase job)"
    using retry_fold_signals [OF mem] that due by (simp add: errorRetryWorker_def)
  show ?thesis
    using retry_fold [of now m ?ids jobID] mem due assms(2,3) sig
    by (auto simp: errorRetryWorker_def revertPhase_def allSignalled_def eligiblePhaseOf_def
        workingPhase_def)
qed

theorem errorRetryWorker_reverts_witness:
  "map_option Phase (Jobs (errorRetryWorker 100 [''w'', ''z'', ''x'', ''y''] exFailed) ''x'') = Some Queued
   \<and> map_option Phase (Jobs (errorRetryWorker 100 [''w'', ''z'', ''x'', ''y''] exFailed) ''y'') = Some Indexed
   \<and> map_option Phase (Jobs (errorRetryWorker 100 [''w'', ''z'', ''x'', ''y''] exFailed) ''z'') = Some Copied
   \<and> errors (errorRetryWorker 100 [''w'', ''z'', ''x'', ''y''] exFailed) ''x'' = None
   \<and> copyingWorkerSignal (errorRetryWorker 100 [''w'', ''z'', ''x'', ''y''] exFailed)
   \<and> Jobs (errorRetryWorker 100 [''w'', ''z'', ''x'', ''y''] exFailed) ''w'' = Some (exJobState ''w'' Done)
   \<and> errors (errorRetryWorker 100 [''w'', ''z'', ''x'', ''y''] exFailed) ''w''
        = Some \<lparr>err = ''e'', nextRetry = 100\<rparr>"
proof -
  have dom: "set [''w'', ''z'', ''x'', ''y''] = dom (Jobs exFailed)"
    by (auto simp: exFailed_def split: if_splits)
  have e: "errors exFailed ''x'' = Some \<lparr>err = ''e'', nextRetry = 100\<rparr>"
    "errors exFailed ''y'' = Some \<lparr>err = ''e'', nextRetry = 100\<rparr>"
    "errors exFailed ''z'' = Some \<lparr>err = ''e'', nextRetry = 100\<rparr>"
    "errors exFailed ''w'' = Some \<lparr>err = ''e'', nextRetry = 100\<rparr>"
    by (simp_all add: exFailed_def)
  have j: "Jobs exFailed ''x'' = Some (exJobState ''x'' Indexing)"
    "Jobs exFailed ''y'' = Some (exJobState ''y'' Copying)"
    "Jobs exFailed ''z'' = Some (exJobState ''z'' Zipping)"
    "Jobs exFailed ''w'' = Some (exJobState ''w'' Done)"
    by (simp_all add: exFailed_def)
  show ?thesis
    using errorRetryWorker_reverts [OF dom j(1) e(1), of 100]
      errorRetryWorker_reverts [OF dom j(2) e(2), of 100]
      errorRetryWorker_reverts [OF dom j(3) e(3), of 100]
      errorRetryWorker_reverts [OF dom j(4) e(4), of 100]
    by (simp add: exJobState_def)
qed


subsection \<open>Cancel handles\<close>

lemma Set_finished_removes_handle:
  assumes "initLocked r = Inr r1" and "Status job = COMPLETE \<or> Status job = ERROR"
  shows "runningJobs (snd (Set r cancel job)) (JobID (Request job)) = None"
  using assms by (auto simp: Set_def Let_def)

lemma Set_running_registers_handle:
  assumes "initLocked r = Inr r1" and "Status job = RUNNING" and "cancel \<noteq> Nil"
  shows "runningJobs (snd (Set r cancel job)) (JobID (Request job)) = Some cancel"
  using assms by (auto simp: Set_def Let_def)


text \<open>
  C8 at a failing input: the manager holds a job in phase \<open>Copied\<close> with no cancel
  function registered; the zipping worker claims it and zipping succeeds. The job is then
  in phase \<open>Done\<close> and its cancel function is still in \<open>jobCtxCancellers\<close>.
\<close>

theorem zippingWorker_done_keeps_canceller:
  "map_option Phase (Jobs exManager ''c'') = Some Copied
   \<and> jobCtxCancellers exManager ''c'' = None
   \<and> map_option Phase (Jobs (zippingWorker exManager [''c'', ''q'', ''i''] ([5], None) 0) ''c'')
       = Some Done
   \<and> jobCtxCancellers (zippingWorker exManager [''c'', ''q'', ''i''] ([5], None) 0) ''c''
       = Some ()"
  by (simp add: zippingWorker_def startWorkerTask_def exManager_def exJobState_def
      changeJobPhaseLocked_def changeJobPhase_def zipCalls_def resetBytesZipped_def
      updateBytesZipped_def jobOrZero_def signalZipping_def Let_def)

subsection \<open>KBFS archive manager: the resumable copier\<close>

lemma ctxAwareCopy_Inr:
  "ctxAwareCopy c to from upd = Inr c' \<Longrightarrow>
     localFiles c' = (localFiles c)(to \<mapsto> contents c to @ from)
     \<and> counter c' = updaterCalls upd (chunkSizes from) (counter c)"
proof (induction c to "from" upd rule: ctxAwareCopy.induct)
  case (1 c to "from" upd)
  show ?case
  proof (cases "65536 \<le> length from")
    case True
    let ?c1 = "copyChunk c to (take 65536 from) upd"
    from "1.prems" True have nd: "\<not> ctxDone c"
      and rec: "ctxAwareCopy ?c1 to (drop 65536 from) upd = Inr c'"
      by (auto simp: ctxAwareCopy.simps [of c to "from" upd] split: if_splits)
    from "1.IH" [OF nd True rec]
    have "localFiles c' = (localFiles ?c1)(to \<mapsto> contents ?c1 to @ drop 65536 from)"
      and "counter c' = updaterCalls upd (chunkSizes (drop 65536 from)) (counter ?c1)"
      by blast+
    moreover have "contents ?c1 to @ drop 65536 from = contents c to @ from"
      by (simp add: copyChunk_def contents_def)
    moreover have "localFiles ?c1 = (localFiles c)(to \<mapsto> contents c to @ take 65536 from)"
      by (simp add: copyChunk_def)
    moreover have "counter ?c1 = upd 65536 (counter c)"
      using True by (simp add: copyChunk_def)
    ultimately show ?thesis
      using True by (simp add: chunkSizes.simps [of "from"] updaterCalls_def)
  next
    case False
    with "1.prems" have "c' = copyChunk c to from upd"
      by (auto simp: ctxAwareCopy.simps [of c to "from" upd] split: if_splits)
    with False show ?thesis
      by (simp add: copyChunk_def chunkSizes.simps [of "from"] updaterCalls_def)
  qed
qed

lemma ctxAwareCopy_live:
  "ctxPolls c = None \<Longrightarrow> \<exists>c'. ctxAwareCopy c to from upd = Inr c' \<and> ctxPolls c' = None"
proof (induction c to "from" upd rule: ctxAwareCopy.induct)
  case (1 c to "from" upd)
  from "1.prems" have nd: "\<not> ctxDone c" by (simp add: ctxDone_def)
  show ?case
  proof (cases "65536 \<le> length from")
    case True
    have "ctxPolls (copyChunk c to (take 65536 from) upd) = None"
      using "1.prems" by (simp add: copyChunk_def)
    from "1.IH" [OF nd True this] nd True show ?thesis
      by (simp add: ctxAwareCopy.simps [of c to "from" upd])
  next
    case False
    with nd "1.prems" show ?thesis
      by (simp add: ctxAwareCopy.simps [of c to "from" upd] copyChunk_def)
  qed
qed

lemma updaterCalls_append:
  "updaterCalls upd (ds @ es) s = updaterCalls upd es (updaterCalls upd ds s)"
  by (simp add: updaterCalls_def)

lemma updaterCalls_Cons: "updaterCalls upd (d # ds) s = updaterCalls upd ds (upd d s)"
  by (simp add: updaterCalls_def)

lemma copyFileFromBeginning_Inr:
  assumes "srcDirFS entryPath = Some src"
    and "copyFileFromBeginning sha c srcDirFS entryPath localPath upd = Inr (digest, c')"
  shows "digest = sha src \<and> localFiles c' localPath = Some src
         \<and> counter c' = updaterCalls upd (chunkSizes src) (counter c)"
proof -
  let ?c0 = "c\<lparr>localFiles := (localFiles c)(localPath \<mapsto> [])\<rparr>"
  from assms obtain c1 where r: "ctxAwareCopy ?c0 localPath src upd = Inr c1"
    and e: "digest = sha src" "c' = c1"
    by (auto simp: copyFileFromBeginning_def split: sum.splits)
  from ctxAwareCopy_Inr [OF r] e show ?thesis
    by (simp add: contents_def)
qed

lemma copyFileFromBeginning_live:
  assumes "srcDirFS entryPath = Some src" and "ctxPolls c = None"
  shows "\<exists>digest c'. copyFileFromBeginning sha c srcDirFS entryPath localPath upd = Inr (digest, c')"
proof -
  have "ctxPolls (c\<lparr>localFiles := (localFiles c)(localPath \<mapsto> [])\<rparr>) = None"
    using assms(2) by simp
  from ctxAwareCopy_live [OF this, of localPath src upd] assms(1) show ?thesis
    by (auto simp: copyFileFromBeginning_def)
qed

lemma copyFilePickupPrevious_Inr:
  assumes src: "srcDirFS entryPath = Some src"
    and dst: "localFiles c localPath = Some dst"
    and ok: "copyFilePickupPrevious sha c srcDirFS entryPath localPath (length dst) upd
               = Inr (digest, c')"
  shows "digest = sha src
     \<and> (sha (dst @ drop (length dst) src) = sha src \<longrightarrow>
          localFiles c' localPath = Some (dst @ drop (length dst) src)
          \<and> counter c' = updaterCalls upd (chunkSizes (drop (length dst) src)) (counter c))
     \<and> (sha (dst @ drop (length dst) src) \<noteq> sha src \<longrightarrow>
          localFiles c' localPath = Some src
          \<and> counter c' =
              updaterCalls upd
                (chunkSizes (drop (length dst) src) @ [- of_nat (length src)] @ chunkSizes src)
                (counter c))"
proof -
  let ?c0 = "c\<lparr>localFiles := (localFiles c)(localPath \<mapsto> contents c localPath)\<rparr>"
  let ?tail = "drop (length dst) src"
  from ok src obtain c1 where r: "ctxAwareCopy ?c0 localPath ?tail upd = Inr c1"
    by (auto simp: copyFilePickupPrevious_def split: sum.splits)
  from ctxAwareCopy_Inr [OF r] dst
  have f1: "localFiles c1 localPath = Some (dst @ ?tail)"
    and k1: "counter c1 = updaterCalls upd (chunkSizes ?tail) (counter c)"
    by (simp_all add: contents_def)
  then have cont: "contents c1 localPath = dst @ ?tail"
    by (simp add: contents_def)
  show ?thesis
  proof (cases "sha src = sha (dst @ ?tail)")
    case True
    with ok src r cont have "digest = sha src" "c' = c1"
      by (simp_all add: copyFilePickupPrevious_def Let_def)
    with True f1 k1 show ?thesis by simp
  next
    case False
    let ?c2 = "c1\<lparr>counter := upd (- of_nat (length src)) (counter c1)\<rparr>"
    from False ok src r cont
    have "copyFileFromBeginning sha ?c2 srcDirFS entryPath localPath upd = Inr (digest, c')"
      by (simp add: copyFilePickupPrevious_def Let_def)
    with src have "digest = sha src \<and> localFiles c' localPath = Some src
         \<and> counter c' = updaterCalls upd (chunkSizes src) (counter ?c2)"
      by (rule copyFileFromBeginning_Inr [where srcDirFS = srcDirFS and entryPath = entryPath])
    with k1 False show ?thesis
      by (auto simp: updaterCalls_append updaterCalls_Cons)
  qed
qed

lemma copyFilePickupPrevious_live:
  assumes src: "srcDirFS entryPath = Some src" and live: "ctxPolls c = None"
  shows "\<exists>digest c'. copyFilePickupPrevious sha c srcDirFS entryPath localPath seek upd
           = Inr (digest, c')"
proof -
  let ?c0 = "c\<lparr>localFiles := (localFiles c)(localPath \<mapsto> contents c localPath)\<rparr>"
  have "ctxPolls ?c0 = None" using live by simp
  from ctxAwareCopy_live [OF this, of localPath "drop seek src" upd]
  obtain c1 where r: "ctxAwareCopy ?c0 localPath (drop seek src) upd = Inr c1"
    and l1: "ctxPolls c1 = None"
    by blast
  let ?c2 = "c1\<lparr>counter := upd (- of_nat (length src)) (counter c1)\<rparr>"
  have "ctxPolls ?c2 = None" using l1 by simp
  with src have "\<exists>digest c'.
      copyFileFromBeginning sha ?c2 srcDirFS entryPath localPath upd = Inr (digest, c')"
    by (rule copyFileFromBeginning_live [where srcDirFS = srcDirFS and entryPath = entryPath])
  with r src show ?thesis
    by (auto simp: copyFilePickupPrevious_def Let_def)
qed

lemma sum_list_chunkSizes: "sum_list (chunkSizes bs) = of_nat (length bs)"
proof (induction bs rule: chunkSizes.induct)
  case (1 bs)
  show ?case
  proof (cases "65536 \<le> length bs")
    case True
    then have "(of_nat (length bs - 65536) :: int64) = of_nat (length bs) - 65536"
      by (simp add: of_nat_diff)
    moreover have "sum_list (chunkSizes (drop 65536 bs)) = of_nat (length bs - 65536)"
      using "1.IH" [OF True] by simp
    moreover have "chunkSizes bs = 65536 # chunkSizes (drop 65536 bs)"
      using True by (subst chunkSizes.simps) simp
    ultimately show ?thesis
      by simp
  next
    case False
    then show ?thesis by (simp add: chunkSizes.simps [of bs])
  qed
qed

lemma updateBytesCopied_counter:
  "BytesCopied (jobOrZero (updateBytesCopied jobID delta m) jobID)
     = BytesCopied (jobOrZero m jobID) + delta"
  by (simp add: updateBytesCopied_def jobOrZero_def Let_def)

lemma updaterCalls_updateBytesCopied:
  "BytesCopied (jobOrZero (updaterCalls (updateBytesCopied jobID) deltas m) jobID)
     = BytesCopied (jobOrZero m jobID) + sum_list deltas"
  by (induction deltas arbitrary: m)
     (simp_all add: updaterCalls_def updateBytesCopied_counter add.assoc)

lemma resumed_copy_net_count:
  "BytesCopied (jobOrZero (updaterCalls (updateBytesCopied jobID)
       (chunkSizes tail @ [- of_nat (length src)] @ chunkSizes src) m) jobID)
     = BytesCopied (jobOrZero m jobID) + of_nat (length tail)"
  by (simp add: updaterCalls_updateBytesCopied sum_list_chunkSizes)

lemma chunkSizes_small: "length bs < 65536 \<Longrightarrow> chunkSizes bs = [of_nat (length bs)]"
  by (simp add: chunkSizes.simps [of bs])

lemma copyRegularFile_resumed:
  assumes src: "srcDirFS entryPath = Some src"
    and dst: "localFiles c localPath = Some dst"
    and nonempty: "dst \<noteq> []"
    and ok: "copyRegularFile sha c srcDirFS entryPath localPath entry upd = Inr (entry', c')"
  shows "entry' = entry\<lparr>Sha256SumHex := hexEncodeToString (sha src), State := Complete\<rparr>
     \<and> localFiles c' localPath =
         Some (if sha (dst @ drop (length dst) src) = sha src
               then dst @ drop (length dst) src else src)
     \<and> counter c' =
         updaterCalls upd
           (if sha (dst @ drop (length dst) src) = sha src
            then chunkSizes (drop (length dst) src)
            else chunkSizes (drop (length dst) src) @ [- of_nat (length src)] @ chunkSizes src)
           (counter c)"
proof -
  from nonempty have pos: "length dst \<noteq> 0" by simp
  from ok dst pos obtain digest where
    p: "copyFilePickupPrevious sha c srcDirFS entryPath localPath (length dst) upd = Inr (digest, c')"
    and e: "entry' = entry\<lparr>Sha256SumHex := hexEncodeToString digest, State := Complete\<rparr>"
    by (auto simp: copyRegularFile_def copyFile_def split: sum.splits)
  from src dst p have r: "digest = sha src
     \<and> (sha (dst @ drop (length dst) src) = sha src \<longrightarrow>
          localFiles c' localPath = Some (dst @ drop (length dst) src)
          \<and> counter c' = updaterCalls upd (chunkSizes (drop (length dst) src)) (counter c))
     \<and> (sha (dst @ drop (length dst) src) \<noteq> sha src \<longrightarrow>
          localFiles c' localPath = Some src
          \<and> counter c' =
              updaterCalls upd
                (chunkSizes (drop (length dst) src) @ [- of_nat (length src)] @ chunkSizes src)
                (counter c))"
    by (rule copyFilePickupPrevious_Inr [where srcDirFS = srcDirFS and entryPath = entryPath])
  with e show ?thesis by simp
qed

lemma copyRegularFile_live:
  assumes src: "srcDirFS entryPath = Some src" and live: "ctxPolls c = None"
  shows "\<exists>entry' c'. copyRegularFile sha c srcDirFS entryPath localPath entry upd = Inr (entry', c')"
proof -
  have "\<exists>digest c'. copyFile sha c srcDirFS entryPath localPath seek upd = Inr (digest, c')"
    for seek
  proof (cases "seek = 0")
    case True
    from src live have "\<exists>digest c'.
        copyFileFromBeginning sha c srcDirFS entryPath localPath upd = Inr (digest, c')"
      by (rule copyFileFromBeginning_live [where srcDirFS = srcDirFS and entryPath = entryPath])
    with True show ?thesis by (simp add: copyFile_def)
  next
    case False
    from src live have "\<exists>digest c'.
        copyFilePickupPrevious sha c srcDirFS entryPath localPath seek upd = Inr (digest, c')"
      by (rule copyFilePickupPrevious_live [where srcDirFS = srcDirFS and entryPath = entryPath])
    with False show ?thesis by (simp add: copyFile_def)
  qed
  then obtain digest c1 where
    "copyFile sha c srcDirFS entryPath localPath
       (case localFiles c localPath of None \<Rightarrow> 0 | Some dst \<Rightarrow> length dst) upd = Inr (digest, c1)"
    by blast
  then show ?thesis
    by (simp add: copyRegularFile_def Let_def)
qed

lemma updaterCalls_updateBytesCopied_Jobs:
  "Jobs m jobID = Some job \<Longrightarrow>
     updaterCalls (updateBytesCopied jobID) deltas m
       = m\<lparr>Jobs := (Jobs m)(jobID \<mapsto> job\<lparr>BytesCopied := BytesCopied job + sum_list deltas\<rparr>)\<rparr>"
proof (induction deltas arbitrary: m job)
  case Nil
  then have "(Jobs m)(jobID \<mapsto> job) = Jobs m" by (simp add: fun_upd_idem)
  then show ?case by (simp add: updaterCalls_def)
next
  case (Cons delta deltas)
  let ?m1 = "updateBytesCopied jobID delta m"
  let ?job1 = "job\<lparr>BytesCopied := BytesCopied job + delta\<rparr>"
  from Cons.prems have m1: "?m1 = m\<lparr>Jobs := (Jobs m)(jobID \<mapsto> ?job1)\<rparr>"
    by (simp add: updateBytesCopied_def jobOrZero_def Let_def)
  then have "Jobs ?m1 jobID = Some ?job1" by simp
  from Cons.IH [OF this]
  have "updaterCalls (updateBytesCopied jobID) deltas ?m1
          = ?m1\<lparr>Jobs := (Jobs ?m1)(jobID \<mapsto>
              ?job1\<lparr>BytesCopied := BytesCopied ?job1 + sum_list deltas\<rparr>)\<rparr>" .
  also have "\<dots> = m\<lparr>Jobs := (Jobs m)(jobID \<mapsto>
              job\<lparr>BytesCopied := BytesCopied job + sum_list (delta # deltas)\<rparr>)\<rparr>"
    unfolding m1 by (simp add: add.assoc)
  finally show ?case
    by (simp only: updaterCalls_Cons)
qed

lemma updateManifest_Some:
  "Jobs m jobID = Some job \<Longrightarrow>
     updateManifest jobID manifest m
       = Some (m\<lparr>Jobs := (Jobs m)(jobID \<mapsto> job\<lparr>Manifest := Manifest job ++ manifest\<rparr>)\<rparr>)"
  by (simp add: updateManifest_def)

lemma doCopying_entry_Inr:
  assumes job: "Jobs (counter c) jobID = Some job"
    and entry: "manifest entryPath = Some entry"
    and src: "srcDirFS entryPath = Some src"
    and dst: "localFiles c (join dstBase entryPath) = Some dst"
    and nonempty: "dst \<noteq> []"
    and ok: "doCopying_entry sha join c srcDirFS jobID dstBase manifest entryPath
               = Inr (manifest', c')"
  shows "manifest' =
           manifest(entryPath \<mapsto>
             entry\<lparr>Sha256SumHex := hexEncodeToString (sha src), State := Complete\<rparr>)"
    and "localFiles c' (join dstBase entryPath) =
           Some (if sha (dst @ drop (length dst) src) = sha src
                 then dst @ drop (length dst) src else src)"
    and "counter c' =
           (counter c)\<lparr>Jobs := (Jobs (counter c))(jobID \<mapsto>
              job\<lparr>BytesCopied := BytesCopied job + sum_list
                    (if sha (dst @ drop (length dst) src) = sha src
                     then chunkSizes (drop (length dst) src)
                     else chunkSizes (drop (length dst) src) @ [- of_nat (length src)]
                            @ chunkSizes src),
                  Manifest := Manifest job ++ manifest'\<rparr>)\<rparr>"
proof -
  let ?lp = "join dstBase entryPath"
  let ?e0 = "entry\<lparr>State := InProgress\<rparr>"
  let ?man1 = "manifest(entryPath \<mapsto> ?e0)"
  let ?job1 = "job\<lparr>Manifest := Manifest job ++ ?man1\<rparr>"
  let ?m1 = "(counter c)\<lparr>Jobs := (Jobs (counter c))(jobID \<mapsto> ?job1)\<rparr>"
  let ?ds = "if sha (dst @ drop (length dst) src) = sha src
             then chunkSizes (drop (length dst) src)
             else chunkSizes (drop (length dst) src) @ [- of_nat (length src)] @ chunkSizes src"
  have u1: "updateManifest jobID ?man1 (counter c) = Some ?m1"
    using job by (rule updateManifest_Some)
  from ok entry src u1 obtain entry1 c1 m2 where
    cp: "copyRegularFile sha (c\<lparr>counter := ?m1\<rparr>) srcDirFS entryPath ?lp ?e0
           (updateBytesCopied jobID) = Inr (entry1, c1)"
    and man: "manifest' = ?man1(entryPath \<mapsto> entry1)"
    and u2: "updateManifest jobID manifest' (counter c1) = Some m2"
    and c': "c' = c1\<lparr>counter := m2\<rparr>"
    by (auto simp: doCopying_entry_def Let_def split: sum.splits option.splits)
  have dst1: "localFiles (c\<lparr>counter := ?m1\<rparr>) ?lp = Some dst"
    using dst by simp
  from copyRegularFile_resumed [where srcDirFS = srcDirFS and entryPath = entryPath,
      OF src dst1 nonempty cp]
  have e1: "entry1 = ?e0\<lparr>Sha256SumHex := hexEncodeToString (sha src), State := Complete\<rparr>"
    and f1: "localFiles c1 ?lp =
           Some (if sha (dst @ drop (length dst) src) = sha src
                 then dst @ drop (length dst) src else src)"
    and k1: "counter c1 = updaterCalls (updateBytesCopied jobID) ?ds ?m1"
    by simp_all
  from e1 man show man': "manifest' =
      manifest(entryPath \<mapsto>
        entry\<lparr>Sha256SumHex := hexEncodeToString (sha src), State := Complete\<rparr>)"
    by simp
  from f1 c' show "localFiles c' ?lp =
           Some (if sha (dst @ drop (length dst) src) = sha src
                 then dst @ drop (length dst) src else src)"
    by simp
  have j1: "Jobs ?m1 jobID = Some ?job1" by simp
  let ?job2 = "?job1\<lparr>BytesCopied := BytesCopied ?job1 + sum_list ?ds\<rparr>"
  from updaterCalls_updateBytesCopied_Jobs [OF j1, of ?ds] k1
  have k2: "counter c1 = ?m1\<lparr>Jobs := (Jobs ?m1)(jobID \<mapsto> ?job2)\<rparr>"
    by simp
  then have j2: "Jobs (counter c1) jobID = Some ?job2" by simp
  from updateManifest_Some [OF j2, of manifest'] u2
  have m2: "m2 = (counter c1)\<lparr>Jobs := (Jobs (counter c1))(jobID \<mapsto>
               ?job2\<lparr>Manifest := Manifest ?job2 ++ manifest'\<rparr>)\<rparr>"
    by simp
  have "(Manifest job ++ ?man1) ++ manifest' = Manifest job ++ manifest'"
    unfolding man' by (rule ext) (simp add: map_add_def split: option.splits)
  with m2 k2 c' show "counter c' =
           (counter c)\<lparr>Jobs := (Jobs (counter c))(jobID \<mapsto>
              job\<lparr>BytesCopied := BytesCopied job + sum_list ?ds,
                  Manifest := Manifest job ++ manifest'\<rparr>)\<rparr>"
    by simp
qed

lemma copyRegularFile_counter:
  assumes src: "srcDirFS entryPath = Some src"
    and ok: "copyRegularFile sha c srcDirFS entryPath localPath entry upd = Inr (entry', c')"
  shows "\<exists>deltas. counter c' = updaterCalls upd deltas (counter c)"
proof (cases "\<exists>dst. localFiles c localPath = Some dst \<and> dst \<noteq> []")
  case True
  then obtain dst where dst: "localFiles c localPath = Some dst" and ne: "dst \<noteq> []"
    by blast
  from copyRegularFile_resumed [where srcDirFS = srcDirFS and entryPath = entryPath,
      OF src dst ne ok]
  show ?thesis by blast
next
  case False
  then have "(case localFiles c localPath of None \<Rightarrow> 0 | Some dst \<Rightarrow> length dst) = 0"
    by (cases "localFiles c localPath") auto
  with ok obtain digest where
    "copyFileFromBeginning sha c srcDirFS entryPath localPath upd = Inr (digest, c')"
    by (auto simp: copyRegularFile_def copyFile_def Let_def split: sum.splits)
  with src have "digest = sha src \<and> localFiles c' localPath = Some src
         \<and> counter c' = updaterCalls upd (chunkSizes src) (counter c)"
    by (rule copyFileFromBeginning_Inr [where srcDirFS = srcDirFS and entryPath = entryPath])
  then show ?thesis by blast
qed

lemma doCopying_entry_live:
  assumes job: "Jobs (counter c) jobID = Some job"
    and src: "srcDirFS entryPath = Some src"
    and live: "ctxPolls c = None"
  shows "\<exists>manifest' c'.
           doCopying_entry sha join c srcDirFS jobID dstBase manifest entryPath
             = Inr (manifest', c')"
proof -
  let ?lp = "join dstBase entryPath"
  let ?e0 = "(case manifest entryPath of None \<Rightarrow> zeroArchiveFile | Some e \<Rightarrow> e)
               \<lparr>State := InProgress\<rparr>"
  let ?man1 = "manifest(entryPath \<mapsto> ?e0)"
  let ?job1 = "job\<lparr>Manifest := Manifest job ++ ?man1\<rparr>"
  let ?m1 = "(counter c)\<lparr>Jobs := (Jobs (counter c))(jobID \<mapsto> ?job1)\<rparr>"
  have u1: "updateManifest jobID ?man1 (counter c) = Some ?m1"
    using job by (rule updateManifest_Some)
  have "ctxPolls (c\<lparr>counter := ?m1\<rparr>) = None" using live by simp
  with src have "\<exists>entry1 c1.
      copyRegularFile sha (c\<lparr>counter := ?m1\<rparr>) srcDirFS entryPath ?lp ?e0
        (updateBytesCopied jobID) = Inr (entry1, c1)"
    by (rule copyRegularFile_live [where srcDirFS = srcDirFS and entryPath = entryPath])
  then obtain entry1 c1 where
    cp: "copyRegularFile sha (c\<lparr>counter := ?m1\<rparr>) srcDirFS entryPath ?lp ?e0
           (updateBytesCopied jobID) = Inr (entry1, c1)"
    by blast
  from copyRegularFile_counter [where srcDirFS = srcDirFS and entryPath = entryPath, OF src cp]
  obtain deltas where k1: "counter c1 = updaterCalls (updateBytesCopied jobID) deltas ?m1"
    by auto
  have "Jobs ?m1 jobID = Some ?job1" by simp
  from updaterCalls_updateBytesCopied_Jobs [OF this, of deltas] k1
  have "Jobs (counter c1) jobID
          = Some (?job1\<lparr>BytesCopied := BytesCopied ?job1 + sum_list deltas\<rparr>)"
    by simp
  from updateManifest_Some [OF this]
  have "\<exists>m2. updateManifest jobID (?man1(entryPath \<mapsto> entry1)) (counter c1) = Some m2"
    by simp
  with u1 src cp show ?thesis
    by (auto simp: doCopying_entry_def Let_def)
qed

text \<open>
  C1, as stated, fails when the destination is longer than the source. The source holds
  the five bytes of \<open>hello\<close> and the destination the eleven bytes of \<open>hello world\<close>:
  the copy succeeds; nothing is left to append, so the updater is called with 0; the two
  sums differ; the updater is called with \<open>- 5\<close>, the number of bytes read from the source
  for its sum, and not with minus the eleven bytes that the truncating open then
  discards; and the copy from byte 0 calls it with 5 and leaves the five bytes.
\<close>

theorem copy_resume_decrement_counterexample:
  "exSource ''a.txt'' = Some [104, 101, 108, 108, 111]
   \<and> localFiles (exCopier [104, 101, 108, 108, 111, 32, 119, 111, 114, 108, 100]) ''/w/u/a.txt''
       = Some [104, 101, 108, 108, 111, 32, 119, 111, 114, 108, 100]
   \<and> \<not> isl (copyRegularFile exHash
               (exCopier [104, 101, 108, 108, 111, 32, 119, 111, 114, 108, 100]) exSource
               ''a.txt'' ''/w/u/a.txt'' exEntry logDelta)
   \<and> counter (snd (projr (copyRegularFile exHash
               (exCopier [104, 101, 108, 108, 111, 32, 119, 111, 114, 108, 100]) exSource
               ''a.txt'' ''/w/u/a.txt'' exEntry logDelta)))
       = [0, - 5, 5]
   \<and> localFiles (snd (projr (copyRegularFile exHash
               (exCopier [104, 101, 108, 108, 111, 32, 119, 111, 114, 108, 100]) exSource
               ''a.txt'' ''/w/u/a.txt'' exEntry logDelta))) ''/w/u/a.txt''
       = Some [104, 101, 108, 108, 111]"
  by (simp add: copyRegularFile_def copyFile_def copyFilePickupPrevious_def
      copyFileFromBeginning_def ctxAwareCopy.simps copyChunk_def ctxDone_def contents_def
      exHash_def exCopier_def exSource_def exEntry_def logDelta_def hexEncodeToString_def
      hexDigit_def Let_def)

text \<open>
  C1 (amended). Let the job be in the manager and the entry in the manifest, the source
  file hold \<open>src\<close> and the destination exist with contents \<open>dst\<close>, not empty. Whenever
  the turn of \<open>doCopying\<close> for the entry succeeds, the entry is complete and carries the
  SHA-256 of \<open>src\<close>, in hex, in the manifest and in the manifest the manager keeps for the
  job, and \<open>BytesCopied\<close> of the job has grown by the number of source bytes from offset
  \<open>length dst\<close> on. The manager was handed the manifest with the entry in progress,
  then the copy appended those bytes and compared the sums of the whole source and the
  whole destination. When the sums agree, the destination is \<open>dst\<close> followed by those
  bytes, and \<open>updateBytesCopied\<close> was called with the sizes of the chunks appended. When
  they differ, it was called after that with minus the length of the source, which leaves
  \<open>BytesCopied\<close> at its first value plus the bytes appended minus the length of the
  source, and then with the chunk sizes of a copy of the whole source; the destination is
  \<open>src\<close>. In both cases the manager was handed the final manifest last.
\<close>

theorem doCopying_entry_resumed:
  assumes job: "Jobs (counter c) jobID = Some job"
    and entry: "manifest entryPath = Some entry"
    and src: "srcDirFS entryPath = Some src"
    and dst: "localFiles c (join dstBase entryPath) = Some dst"
    and nonempty: "dst \<noteq> []"
    and ok: "doCopying_entry sha join c srcDirFS jobID dstBase manifest entryPath
               = Inr (manifest', c')"
  shows "\<exists>job' m1.
      Jobs (counter c') jobID = Some job'
      \<and> manifest' entryPath
          = Some (entry\<lparr>Sha256SumHex := hexEncodeToString (sha src), State := Complete\<rparr>)
      \<and> Manifest job' entryPath = manifest' entryPath
      \<and> BytesCopied job' = BytesCopied job + of_nat (length (drop (length dst) src))
      \<and> updateManifest jobID (manifest(entryPath \<mapsto> entry\<lparr>State := InProgress\<rparr>)) (counter c)
          = Some m1
      \<and> (sha (dst @ drop (length dst) src) = sha src \<longrightarrow>
           localFiles c' (join dstBase entryPath) = Some (dst @ drop (length dst) src)
           \<and> updateManifest jobID manifest'
                (updaterCalls (updateBytesCopied jobID) (chunkSizes (drop (length dst) src)) m1)
               = Some (counter c'))
      \<and> (sha (dst @ drop (length dst) src) \<noteq> sha src \<longrightarrow>
           localFiles c' (join dstBase entryPath) = Some src
           \<and> updateManifest jobID manifest'
                (updaterCalls (updateBytesCopied jobID)
                   (chunkSizes (drop (length dst) src) @ [- of_nat (length src)]
                      @ chunkSizes src) m1)
               = Some (counter c')
           \<and> BytesCopied (jobOrZero
                (updaterCalls (updateBytesCopied jobID)
                   (chunkSizes (drop (length dst) src) @ [- of_nat (length src)]) m1) jobID)
               = BytesCopied job + of_nat (length (drop (length dst) src))
                   - of_nat (length src))"
proof -
  let ?lp = "join dstBase entryPath"
  let ?tail = "drop (length dst) src"
  let ?man1 = "manifest(entryPath \<mapsto> entry\<lparr>State := InProgress\<rparr>)"
  let ?job1 = "job\<lparr>Manifest := Manifest job ++ ?man1\<rparr>"
  let ?m1 = "(counter c)\<lparr>Jobs := (Jobs (counter c))(jobID \<mapsto> ?job1)\<rparr>"
  let ?ds = "if sha (dst @ ?tail) = sha src then chunkSizes ?tail
             else chunkSizes ?tail @ [- of_nat (length src)] @ chunkSizes src"
  let ?job' = "job\<lparr>BytesCopied := BytesCopied job + sum_list ?ds,
                    Manifest := Manifest job ++ manifest'\<rparr>"
  note r = doCopying_entry_Inr [where srcDirFS = srcDirFS and entryPath = entryPath
      and manifest = manifest, OF job entry src dst nonempty ok]
  have u1: "updateManifest jobID ?man1 (counter c) = Some ?m1"
    using job by (rule updateManifest_Some)
  have j1: "Jobs ?m1 jobID = Some ?job1" by simp
  have calls: "updaterCalls (updateBytesCopied jobID) deltas ?m1
      = ?m1\<lparr>Jobs := (Jobs ?m1)(jobID \<mapsto>
           ?job1\<lparr>BytesCopied := BytesCopied ?job1 + sum_list deltas\<rparr>)\<rparr>" for deltas
    using j1 by (rule updaterCalls_updateBytesCopied_Jobs)
  have merge: "(Manifest job ++ ?man1) ++ manifest' = Manifest job ++ manifest'"
    unfolding r(1) by (rule ext) (simp add: map_add_def split: option.splits)
  have fin: "updateManifest jobID manifest' (updaterCalls (updateBytesCopied jobID) ?ds ?m1)
      = Some (counter c')"
    unfolding calls r(3) using merge by (simp add: updateManifest_def)
  have j': "Jobs (counter c') jobID = Some ?job'"
    unfolding r(3) by simp
  have man: "manifest' entryPath
      = Some (entry\<lparr>Sha256SumHex := hexEncodeToString (sha src), State := Complete\<rparr>)"
    unfolding r(1) by simp
  have "Manifest ?job' entryPath = manifest' entryPath"
    using man by (simp add: map_add_def)
  moreover have "BytesCopied ?job' = BytesCopied job + of_nat (length ?tail)"
    by (simp add: sum_list_chunkSizes)
  moreover have "sha (dst @ ?tail) = sha src \<longrightarrow>
      localFiles c' ?lp = Some (dst @ ?tail)
      \<and> updateManifest jobID manifest'
           (updaterCalls (updateBytesCopied jobID) (chunkSizes ?tail) ?m1) = Some (counter c')"
    using r(2) fin by (simp split: if_splits)
  moreover have "sha (dst @ ?tail) \<noteq> sha src \<longrightarrow>
      localFiles c' ?lp = Some src
      \<and> updateManifest jobID manifest'
           (updaterCalls (updateBytesCopied jobID)
              (chunkSizes ?tail @ [- of_nat (length src)] @ chunkSizes src) ?m1)
          = Some (counter c')"
    using r(2) fin by (simp split: if_splits)
  moreover have "BytesCopied (jobOrZero
        (updaterCalls (updateBytesCopied jobID) (chunkSizes ?tail @ [- of_nat (length src)]) ?m1)
        jobID)
      = BytesCopied job + of_nat (length ?tail) - of_nat (length src)"
    unfolding calls by (simp add: jobOrZero_def sum_list_chunkSizes)
  ultimately show ?thesis
    using j' man u1 by blast
qed

theorem doCopying_entry_resumed_witness:
  "(\<exists>manifest' c' job'.
      doCopying_entry exHash exJoin (exCopying [104, 101]) exSource ''j'' ''/w/u'' exManifest
        ''a.txt'' = Inr (manifest', c')
      \<and> Jobs (counter c') ''j'' = Some job'
      \<and> Manifest job' ''a.txt''
          = Some \<lparr>State = Complete, DirentType = FILE, Sha256SumHex = ''68656c6c6f''\<rparr>
      \<and> BytesCopied job' = 5
      \<and> localFiles c' ''/w/u/a.txt'' = Some [104, 101, 108, 108, 111])
   \<and> (\<exists>manifest' c' job'.
      doCopying_entry exHash exJoin (exCopying [104, 120]) exSource ''j'' ''/w/u'' exManifest
        ''a.txt'' = Inr (manifest', c')
      \<and> Jobs (counter c') ''j'' = Some job'
      \<and> Manifest job' ''a.txt''
          = Some \<lparr>State = Complete, DirentType = FILE, Sha256SumHex = ''68656c6c6f''\<rparr>
      \<and> BytesCopied job' = 5
      \<and> localFiles c' ''/w/u/a.txt'' = Some [104, 101, 108, 108, 111])
   \<and> (\<exists>manifest' c' job'.
      doCopying_entry exHash exJoin
        (exCopying [104, 101, 108, 108, 111, 32, 119, 111, 114, 108, 100]) exSource ''j'' ''/w/u''
        exManifest ''a.txt'' = Inr (manifest', c')
      \<and> Jobs (counter c') ''j'' = Some job'
      \<and> Manifest job' ''a.txt''
          = Some \<lparr>State = Complete, DirentType = FILE, Sha256SumHex = ''68656c6c6f''\<rparr>
      \<and> BytesCopied job' = 2
      \<and> localFiles c' ''/w/u/a.txt'' = Some [104, 101, 108, 108, 111])"
proof -
  let ?job = "(exJobState ''j'' Copying)\<lparr>Manifest := exManifest, BytesTotal := 5, BytesCopied := 2\<rparr>"
  let ?entry = "\<lparr>State = ToDo, DirentType = FILE, Sha256SumHex = []\<rparr>"
  have src: "exSource ''a.txt'' = Some [104, 101, 108, 108, 111]"
    by (simp add: exSource_def)
  have entry: "exManifest ''a.txt'' = Some ?entry"
    by (simp add: exManifest_def)
  have hex: "hexEncodeToString (exHash [104, 101, 108, 108, 111]) = ''68656c6c6f''"
    by (simp add: hexEncodeToString_def hexDigit_def exHash_def)
  have job: "Jobs (counter (exCopying dst)) ''j'' = Some ?job" for dst
    by (simp add: exCopying_def)
  have dst: "localFiles (exCopying dst) (exJoin ''/w/u'' ''a.txt'') = Some dst" for dst
    by (simp add: exCopying_def exJoin_def)
  have live: "ctxPolls (exCopying dst) = None" for dst
    by (simp add: exCopying_def)
  have lp: "exJoin ''/w/u'' ''a.txt'' = ''/w/u/a.txt''"
    by (simp add: exJoin_def)
  have bc: "BytesCopied ?job = 2"
    by simp
  have run: "\<exists>manifest' c'.
      doCopying_entry exHash exJoin (exCopying dst) exSource ''j'' ''/w/u'' exManifest ''a.txt''
        = Inr (manifest', c')" for dst
    using job src live
    by (rule doCopying_entry_live [where srcDirFS = exSource and entryPath = "''a.txt''"])
  have res: "\<exists>manifest' c' job'.
      doCopying_entry exHash exJoin (exCopying dst) exSource ''j'' ''/w/u'' exManifest ''a.txt''
        = Inr (manifest', c')
      \<and> Jobs (counter c') ''j'' = Some job'
      \<and> Manifest job' ''a.txt''
          = Some \<lparr>State = Complete, DirentType = FILE, Sha256SumHex = ''68656c6c6f''\<rparr>
      \<and> BytesCopied job' = 2 + of_nat (length (drop (length dst) [104, 101, 108, 108, 111 :: byte]))
      \<and> localFiles c' ''/w/u/a.txt''
          = Some (if exHash (dst @ drop (length dst) [104, 101, 108, 108, 111])
                       = exHash [104, 101, 108, 108, 111]
                  then dst @ drop (length dst) [104, 101, 108, 108, 111]
                  else [104, 101, 108, 108, 111])"
    if ne: "dst \<noteq> []" for dst
  proof -
    from run [of dst] obtain manifest' c' where
      ok: "doCopying_entry exHash exJoin (exCopying dst) exSource ''j'' ''/w/u'' exManifest ''a.txt''
             = Inr (manifest', c')"
      by blast
    from doCopying_entry_resumed [where srcDirFS = exSource and entryPath = "''a.txt''"
        and manifest = exManifest, OF job entry src dst ne ok]
    obtain job' where "Jobs (counter c') ''j'' = Some job'"
      and "manifest' ''a.txt'' = Some (?entry\<lparr>Sha256SumHex := ''68656c6c6f'', State := Complete\<rparr>)"
      and "Manifest job' ''a.txt'' = manifest' ''a.txt''"
      and "BytesCopied job' = 2 + of_nat (length (drop (length dst) [104, 101, 108, 108, 111 :: byte]))"
      and "localFiles c' ''/w/u/a.txt''
          = Some (if exHash (dst @ drop (length dst) [104, 101, 108, 108, 111])
                       = exHash [104, 101, 108, 108, 111]
                  then dst @ drop (length dst) [104, 101, 108, 108, 111]
                  else [104, 101, 108, 108, 111])"
      unfolding hex lp bc by auto
    with ok show ?thesis by simp
  qed
  from res [of "[104, 101]"] res [of "[104, 120]"]
    res [of "[104, 101, 108, 108, 111, 32, 119, 111, 114, 108, 100]"]
  show ?thesis
    by (simp add: exHash_def)
qed

subsection \<open>Packaging\<close>

lemma openFile_Inr:
  "openFile os d path flag = Inr d1 \<longleftrightarrow>
     (flag = O_EXCL \<longrightarrow> d path = None) \<and> d path \<noteq> Some Dir
     \<and> d (pathDir os path) = Some Dir \<and> \<not> openRefused os path
     \<and> d1 = d(path \<mapsto> File [])"
  by (auto simp: openFile_def)

lemma openFile_disj:
  "(\<exists>e. openFile os d path flag = Inl e \<and>
       ((flag = O_EXCL \<and> d path \<noteq> None) \<or> d path = Some Dir
        \<or> d (pathDir os path) \<noteq> Some Dir \<or> openRefused os path))
   \<or> (openFile os d path flag = Inr (d(path \<mapsto> File []))
       \<and> (flag = O_EXCL \<longrightarrow> d path = None) \<and> d path \<noteq> Some Dir
       \<and> d (pathDir os path) = Some Dir \<and> \<not> openRefused os path)"
  by (simp add: openFile_def)

lemma openFile_cases:
  obtains e where "openFile os d path flag = Inl e"
    "(flag = O_EXCL \<and> d path \<noteq> None) \<or> d path = Some Dir
       \<or> d (pathDir os path) \<noteq> Some Dir \<or> openRefused os path"
  | "openFile os d path flag = Inr (d(path \<mapsto> File []))"
    "flag = O_EXCL \<longrightarrow> d path = None" "d path \<noteq> Some Dir"
    "d (pathDir os path) = Some Dir" "\<not> openRefused os path"
  using openFile_disj [of os d path flag] by blast

lemma doZipping_exclusive:
  assumes "\<not> OverwriteZip jobDesc" and "d (ZipFilePath jobDesc) \<noteq> None"
  shows "fst (doZipping os ctx d jobDesc) \<noteq> None" and "snd (doZipping os ctx d jobDesc) = d"
  using assms by (simp_all add: doZipping_def openFile_def Let_def)

lemma doZipping_success_iff:
  "fst (doZipping os ctx d jobDesc) = None \<longleftrightarrow>
     (OverwriteZip jobDesc \<or> d (ZipFilePath jobDesc) = None)
     \<and> d (ZipFilePath jobDesc) \<noteq> Some Dir
     \<and> d (pathDir os (ZipFilePath jobDesc)) = Some Dir
     \<and> \<not> openRefused os (ZipFilePath jobDesc)
     \<and> ZipFilePath jobDesc \<noteq> getWorkspaceDir os jobDesc
     \<and> d (getWorkspaceDir os jobDesc) = Some Dir
     \<and> walkError os (d(ZipFilePath jobDesc \<mapsto> File [])) (getWorkspaceDir os jobDesc) = None
     \<and> closeError os (ZipFilePath jobDesc) = None"
proof (cases rule: openFile_cases
    [of os d "ZipFilePath jobDesc" "if OverwriteZip jobDesc then O_TRUNC else O_EXCL"])
  case 1
  then show ?thesis
    by (auto simp: doZipping_def Let_def split: if_splits)
next
  case 2
  then show ?thesis
    by (auto simp: doZipping_def Let_def zipWriterAddDir_def split: if_splits option.splits)
qed

lemma doZipping_success_disk:
  assumes "fst (doZipping os ctx d jobDesc) = None"
  shows "snd (doZipping os ctx d jobDesc) =
           snd (RemoveAll os
                  (d(ZipFilePath jobDesc \<mapsto>
                       File (zipWritten os ctx (d(ZipFilePath jobDesc \<mapsto> File []))
                               (getWorkspaceDir os jobDesc) None)))
                  (getWorkspaceDir os jobDesc))"
proof (cases rule: openFile_cases
    [of os d "ZipFilePath jobDesc" "if OverwriteZip jobDesc then O_TRUNC else O_EXCL"])
  case 1
  with assms show ?thesis
    by (simp add: doZipping_def Let_def)
next
  case 2
  with assms show ?thesis
    by (auto simp: doZipping_def Let_def split: option.splits)
qed

lemma RemoveAll_clean:
  "removeAllLeaves os path = None \<Longrightarrow> inTree os path p \<Longrightarrow> snd (RemoveAll os d path) p = None"
  by (simp add: RemoveAll_def)

lemma RemoveAll_outside: "\<not> inTree os path p \<Longrightarrow> snd (RemoveAll os d path) p = d p"
  by (simp add: RemoveAll_def split: option.splits)

lemma RemoveAll_kept:
  "removeAllLeaves os path = Some keep \<Longrightarrow> keep p \<Longrightarrow> snd (RemoveAll os d path) p = d p"
  by (simp add: RemoveAll_def)

lemma ArchiveChat_package_success_iff:
  assumes "Compress arg"
  shows "(\<exists>r. fst (ArchiveChat_package os d arg) = Inr r) \<longleftrightarrow>
     d (ArchiveChat_OutputPath os arg @ ''.tar.gzip'') \<noteq> Some Dir
     \<and> d (pathDir os (ArchiveChat_OutputPath os arg @ ''.tar.gzip'')) = Some Dir
     \<and> \<not> openRefused os (ArchiveChat_OutputPath os arg @ ''.tar.gzip'')
     \<and> d (ArchiveChat_OutputPath os arg) \<noteq> None
     \<and> walkError os (d(ArchiveChat_OutputPath os arg @ ''.tar.gzip'' \<mapsto> File []))
             (ArchiveChat_OutputPath os arg) = None
     \<and> removeAllLeaves os (ArchiveChat_OutputPath os arg) = None"
proof (cases rule: openFile_cases
    [of os d "ArchiveChat_OutputPath os arg @ ''.tar.gzip''" O_TRUNC])
  case 1
  with assms show ?thesis
    by (auto simp: ArchiveChat_package_def tarGzip_def Let_def)
next
  case 2
  with assms show ?thesis
    by (auto simp: ArchiveChat_package_def tarGzip_def Let_def RemoveAll_def
        split: option.splits)
qed

lemma ArchiveChat_package_success_disk:
  assumes "Compress arg" and "fst (ArchiveChat_package os d arg) = Inr r"
  shows "r = ArchiveChat_OutputPath os arg @ ''.tar.gzip''"
    and "snd (ArchiveChat_package os d arg) =
           (\<lambda>p. if inTree os (ArchiveChat_OutputPath os arg) p then None
                else (d(ArchiveChat_OutputPath os arg @ ''.tar.gzip'' \<mapsto>
                        File (tarWritten os
                                (d(ArchiveChat_OutputPath os arg @ ''.tar.gzip'' \<mapsto> File []))
                                (ArchiveChat_OutputPath os arg) None))) p)"
proof -
  show "r = ArchiveChat_OutputPath os arg @ ''.tar.gzip''"
    using assms
    by (auto simp: ArchiveChat_package_def tarGzip_def Let_def RemoveAll_def
        split: option.splits sum.splits if_splits)
  show "snd (ArchiveChat_package os d arg) =
           (\<lambda>p. if inTree os (ArchiveChat_OutputPath os arg) p then None
                else (d(ArchiveChat_OutputPath os arg @ ''.tar.gzip'' \<mapsto>
                        File (tarWritten os
                                (d(ArchiveChat_OutputPath os arg @ ''.tar.gzip'' \<mapsto> File []))
                                (ArchiveChat_OutputPath os arg) None))) p)"
  proof (cases rule: openFile_cases
      [of os d "ArchiveChat_OutputPath os arg @ ''.tar.gzip''" O_TRUNC])
    case 1
    with assms show ?thesis
      by (auto simp: ArchiveChat_package_def tarGzip_def Let_def)
  next
    case 2
    with assms show ?thesis
      by (auto simp: ArchiveChat_package_def tarGzip_def Let_def RemoveAll_def
          split: option.splits if_splits)
  qed
qed

text \<open>
  C7, as stated, fails in two places. For a chat job the request has no overwrite flag and
  \<open>tarGzip\<close> creates the archive with \<open>os.Create\<close>, so packaging succeeds over a file that
  is already at the target path and replaces it. For a job of the KBFS archive manager,
  \<open>doZipping\<close> succeeds although \<open>os.RemoveAll\<close> has failed: the failure is logged
  only, and the workspace is still there.
\<close>

theorem packaging_counterexample:
  "exDisk ''/dl/kbchat-j.tar.gzip'' = Some (File [1, 2, 3])
   \<and> fst (ArchiveChat_package exOS exDisk exRequest) = Inr ''/dl/kbchat-j.tar.gzip''
   \<and> snd (ArchiveChat_package exOS exDisk exRequest) ''/dl/kbchat-j.tar.gzip''
       = Some (File [80, 104, 105])
   \<and> fst (doZipping exStuckOS None (exDisk(''/out/j.zip'' := None)) (exDesc ''j'')) = None
   \<and> snd (doZipping exStuckOS None (exDisk(''/out/j.zip'' := None)) (exDesc ''j''))
         ''/st/j/workspace/u/a.txt'' = Some (File [104, 105])"
  by (simp add: ArchiveChat_package_def ArchiveChat_OutputPath_def tarGzip_def doZipping_def
      zipWriterAddDir_def getWorkspaceDir_def openFile_def RemoveAll_def inTree_def
      exDisk_def exRequest_def exDesc_def exOS_def exStuckOS_def exEncode_def exDir_def
      within_def Let_def)

text \<open>
  C7 (amended). For a job of the KBFS archive manager, \<open>doZipping\<close> opens the zip file
  with exclusive create unless \<open>OverwriteZip\<close> is set: without the flag it fails, changing
  nothing, when anything is at the target path. It succeeds exactly when the flag is set
  or nothing is at the target path, the target is no directory and lies in a directory
  that exists, the system does not refuse the open, the workspace is a directory other
  than the target, and neither the walk nor the closing of the writers fails; a cancelled
  context and a failing \<open>os.RemoveAll\<close> do not make it fail. When it succeeds, the target
  path, unless it lies below the workspace, holds the new archive in place of what was
  there; nothing of the workspace tree is left when \<open>os.RemoveAll\<close> succeeded; and what a
  failing \<open>os.RemoveAll\<close> left, the target path apart, is as it was. For a chat job with \<open>Compress\<close> set there
  is no such flag: the archive, at the output path (\<open>OutputPath\<close>, or \<open>kbchat-\<close> and the
  job ID in the downloads directory when that is empty) followed by \<open>.tar.gzip\<close>, is
  created with truncation, so that success does not depend on what file is at the target
  path; packaging succeeds exactly when the target is no directory and lies in a directory
  that exists, the system does not refuse the open, the output path exists, and neither
  the walk nor \<open>os.RemoveAll\<close> fails; and when it succeeds, the returned path is that of
  the archive, nothing of the tree of the output path is left, and the archive holds what
  was written.
\<close>

theorem packaging_open_modes:
  "(\<not> OverwriteZip jobDesc \<and> d (ZipFilePath jobDesc) \<noteq> None \<longrightarrow>
      fst (doZipping os ctx d jobDesc) \<noteq> None \<and> snd (doZipping os ctx d jobDesc) = d)
   \<and> (fst (doZipping os ctx d jobDesc) = None \<longleftrightarrow>
        (OverwriteZip jobDesc \<or> d (ZipFilePath jobDesc) = None)
        \<and> d (ZipFilePath jobDesc) \<noteq> Some Dir
        \<and> d (pathDir os (ZipFilePath jobDesc)) = Some Dir
        \<and> \<not> openRefused os (ZipFilePath jobDesc)
        \<and> ZipFilePath jobDesc \<noteq> getWorkspaceDir os jobDesc
        \<and> d (getWorkspaceDir os jobDesc) = Some Dir
        \<and> walkError os (d(ZipFilePath jobDesc \<mapsto> File [])) (getWorkspaceDir os jobDesc) = None
        \<and> closeError os (ZipFilePath jobDesc) = None)
   \<and> (fst (doZipping os ctx d jobDesc) = None
        \<and> \<not> below os (getWorkspaceDir os jobDesc) (ZipFilePath jobDesc) \<longrightarrow>
      snd (doZipping os ctx d jobDesc) (ZipFilePath jobDesc)
        = Some (File (zipWritten os ctx (d(ZipFilePath jobDesc \<mapsto> File []))
                        (getWorkspaceDir os jobDesc) None)))
   \<and> (fst (doZipping os ctx d jobDesc) = None
        \<and> removeAllLeaves os (getWorkspaceDir os jobDesc) = None \<longrightarrow>
      (\<forall>p. inTree os (getWorkspaceDir os jobDesc) p \<longrightarrow> snd (doZipping os ctx d jobDesc) p = None))
   \<and> (fst (doZipping os ctx d jobDesc) = None
        \<and> removeAllLeaves os (getWorkspaceDir os jobDesc) = Some keep \<longrightarrow>
      (\<forall>p. keep p \<and> p \<noteq> ZipFilePath jobDesc \<longrightarrow> snd (doZipping os ctx d jobDesc) p = d p))
   \<and> (Compress arg \<longrightarrow>
      ((\<exists>outpath. fst (ArchiveChat_package os d arg) = Inr outpath) \<longleftrightarrow>
         d (ArchiveChat_OutputPath os arg @ ''.tar.gzip'') \<noteq> Some Dir
         \<and> d (pathDir os (ArchiveChat_OutputPath os arg @ ''.tar.gzip'')) = Some Dir
         \<and> \<not> openRefused os (ArchiveChat_OutputPath os arg @ ''.tar.gzip'')
         \<and> d (ArchiveChat_OutputPath os arg) \<noteq> None
         \<and> walkError os (d(ArchiveChat_OutputPath os arg @ ''.tar.gzip'' \<mapsto> File []))
             (ArchiveChat_OutputPath os arg) = None
         \<and> removeAllLeaves os (ArchiveChat_OutputPath os arg) = None))
   \<and> (Compress arg \<and> fst (ArchiveChat_package os d arg) = Inr outpath \<longrightarrow>
      outpath = ArchiveChat_OutputPath os arg @ ''.tar.gzip''
      \<and> (\<forall>p. inTree os (ArchiveChat_OutputPath os arg) p \<longrightarrow>
             snd (ArchiveChat_package os d arg) p = None)
      \<and> (\<not> below os (ArchiveChat_OutputPath os arg) outpath \<longrightarrow>
           snd (ArchiveChat_package os d arg) outpath
             = Some (File (tarWritten os (d(outpath \<mapsto> File []))
                             (ArchiveChat_OutputPath os arg) None))))"
proof (intro conjI)
  show "\<not> OverwriteZip jobDesc \<and> d (ZipFilePath jobDesc) \<noteq> None \<longrightarrow>
      fst (doZipping os ctx d jobDesc) \<noteq> None \<and> snd (doZipping os ctx d jobDesc) = d"
    using doZipping_exclusive [of jobDesc d os ctx] by blast
  show "fst (doZipping os ctx d jobDesc) = None \<longleftrightarrow>
        (OverwriteZip jobDesc \<or> d (ZipFilePath jobDesc) = None)
        \<and> d (ZipFilePath jobDesc) \<noteq> Some Dir
        \<and> d (pathDir os (ZipFilePath jobDesc)) = Some Dir
        \<and> \<not> openRefused os (ZipFilePath jobDesc)
        \<and> ZipFilePath jobDesc \<noteq> getWorkspaceDir os jobDesc
        \<and> d (getWorkspaceDir os jobDesc) = Some Dir
        \<and> walkError os (d(ZipFilePath jobDesc \<mapsto> File [])) (getWorkspaceDir os jobDesc) = None
        \<and> closeError os (ZipFilePath jobDesc) = None"
    by (rule doZipping_success_iff)
  show "fst (doZipping os ctx d jobDesc) = None
        \<and> \<not> below os (getWorkspaceDir os jobDesc) (ZipFilePath jobDesc) \<longrightarrow>
      snd (doZipping os ctx d jobDesc) (ZipFilePath jobDesc)
        = Some (File (zipWritten os ctx (d(ZipFilePath jobDesc \<mapsto> File []))
                        (getWorkspaceDir os jobDesc) None))"
  proof
    assume a: "fst (doZipping os ctx d jobDesc) = None
        \<and> \<not> below os (getWorkspaceDir os jobDesc) (ZipFilePath jobDesc)"
    then have "ZipFilePath jobDesc \<noteq> getWorkspaceDir os jobDesc"
      using doZipping_success_iff [of os ctx d jobDesc] by blast
    with a have "\<not> inTree os (getWorkspaceDir os jobDesc) (ZipFilePath jobDesc)"
      by (simp add: inTree_def)
    with a show "snd (doZipping os ctx d jobDesc) (ZipFilePath jobDesc)
        = Some (File (zipWritten os ctx (d(ZipFilePath jobDesc \<mapsto> File []))
                        (getWorkspaceDir os jobDesc) None))"
      by (simp add: doZipping_success_disk RemoveAll_outside)
  qed
  show "fst (doZipping os ctx d jobDesc) = None
        \<and> removeAllLeaves os (getWorkspaceDir os jobDesc) = None \<longrightarrow>
      (\<forall>p. inTree os (getWorkspaceDir os jobDesc) p \<longrightarrow> snd (doZipping os ctx d jobDesc) p = None)"
    by (simp add: doZipping_success_disk RemoveAll_clean)
  show "fst (doZipping os ctx d jobDesc) = None
        \<and> removeAllLeaves os (getWorkspaceDir os jobDesc) = Some keep \<longrightarrow>
      (\<forall>p. keep p \<and> p \<noteq> ZipFilePath jobDesc \<longrightarrow> snd (doZipping os ctx d jobDesc) p = d p)"
    by (simp add: doZipping_success_disk RemoveAll_kept)
  show "Compress arg \<longrightarrow>
      ((\<exists>outpath. fst (ArchiveChat_package os d arg) = Inr outpath) \<longleftrightarrow>
         d (ArchiveChat_OutputPath os arg @ ''.tar.gzip'') \<noteq> Some Dir
         \<and> d (pathDir os (ArchiveChat_OutputPath os arg @ ''.tar.gzip'')) = Some Dir
         \<and> \<not> openRefused os (ArchiveChat_OutputPath os arg @ ''.tar.gzip'')
         \<and> d (ArchiveChat_OutputPath os arg) \<noteq> None
         \<and> walkError os (d(ArchiveChat_OutputPath os arg @ ''.tar.gzip'' \<mapsto> File []))
             (ArchiveChat_OutputPath os arg) = None
         \<and> removeAllLeaves os (ArchiveChat_OutputPath os arg) = None)"
    using ArchiveChat_package_success_iff [of arg os d] by blast
  show "Compress arg \<and> fst (ArchiveChat_package os d arg) = Inr outpath \<longrightarrow>
      outpath = ArchiveChat_OutputPath os arg @ ''.tar.gzip''
      \<and> (\<forall>p. inTree os (ArchiveChat_OutputPath os arg) p \<longrightarrow>
             snd (ArchiveChat_package os d arg) p = None)
      \<and> (\<not> below os (ArchiveChat_OutputPath os arg) outpath \<longrightarrow>
           snd (ArchiveChat_package os d arg) outpath
             = Some (File (tarWritten os (d(outpath \<mapsto> File []))
                             (ArchiveChat_OutputPath os arg) None)))"
  proof
    assume a: "Compress arg \<and> fst (ArchiveChat_package os d arg) = Inr outpath"
    then have o: "outpath = ArchiveChat_OutputPath os arg @ ''.tar.gzip''"
      and s: "snd (ArchiveChat_package os d arg) =
           (\<lambda>p. if inTree os (ArchiveChat_OutputPath os arg) p then None
                else (d(ArchiveChat_OutputPath os arg @ ''.tar.gzip'' \<mapsto>
                        File (tarWritten os
                                (d(ArchiveChat_OutputPath os arg @ ''.tar.gzip'' \<mapsto> File []))
                                (ArchiveChat_OutputPath os arg) None))) p)"
      using ArchiveChat_package_success_disk [of arg os d outpath] by blast+
    show "outpath = ArchiveChat_OutputPath os arg @ ''.tar.gzip''
      \<and> (\<forall>p. inTree os (ArchiveChat_OutputPath os arg) p \<longrightarrow>
             snd (ArchiveChat_package os d arg) p = None)
      \<and> (\<not> below os (ArchiveChat_OutputPath os arg) outpath \<longrightarrow>
           snd (ArchiveChat_package os d arg) outpath
             = Some (File (tarWritten os (d(outpath \<mapsto> File []))
                             (ArchiveChat_OutputPath os arg) None)))"
      unfolding s o by (simp add: inTree_def)
  qed
qed

theorem packaging_open_modes_witness:
  "fst (doZipping exOS None exDisk (exDesc ''j'')) \<noteq> None
   \<and> snd (doZipping exOS None exDisk (exDesc ''j'')) = exDisk
   \<and> fst (doZipping exOS None (exDisk(''/out/j.zip'' := None)) (exDesc ''j'')) = None
   \<and> snd (doZipping exOS None (exDisk(''/out/j.zip'' := None)) (exDesc ''j'')) ''/out/j.zip''
        = Some (File [80])
   \<and> snd (doZipping exOS None (exDisk(''/out/j.zip'' := None)) (exDesc ''j''))
        ''/st/j/workspace'' = None
   \<and> snd (doZipping exOS None (exDisk(''/out/j.zip'' := None)) (exDesc ''j''))
        ''/st/j/workspace/u/a.txt'' = None
   \<and> fst (doZipping exOS None exDisk ((exDesc ''j'')\<lparr>OverwriteZip := True\<rparr>)) = None
   \<and> snd (doZipping exOS None exDisk ((exDesc ''j'')\<lparr>OverwriteZip := True\<rparr>)) ''/out/j.zip''
        = Some (File [80])
   \<and> fst (doZipping exStuckOS None (exDisk(''/out/j.zip'' := None)) (exDesc ''j'')) = None
   \<and> snd (doZipping exStuckOS None (exDisk(''/out/j.zip'' := None)) (exDesc ''j''))
        ''/st/j/workspace/u/a.txt'' = Some (File [104, 105])
   \<and> fst (ArchiveChat_package exOS exDisk exRequest) = Inr ''/dl/kbchat-j.tar.gzip''
   \<and> snd (ArchiveChat_package exOS exDisk exRequest) ''/dl/kbchat-j'' = None
   \<and> snd (ArchiveChat_package exOS exDisk exRequest) ''/dl/kbchat-j/chat.txt'' = None
   \<and> snd (ArchiveChat_package exOS exDisk exRequest) ''/dl/kbchat-j.tar.gzip''
        = Some (File [80, 104, 105])
   \<and> fst (ArchiveChat_package exOS exDisk (exRequest\<lparr>OutputPath := []\<rparr>))
        = Inr ''/dl/kbchat-j.tar.gzip''"
proof -
  let ?free = "exDisk(''/out/j.zip'' := None)"
  let ?over = "(exDesc ''j'')\<lparr>OverwriteZip := True\<rparr>"
  have os: "pathDir exOS ''/out/j.zip'' = ''/out''"
    "pathDir exOS ''/dl/kbchat-j.tar.gzip'' = ''/dl''"
    "\<not> openRefused exOS p" "walkError exOS d p = None" "closeError exOS p = None"
    "removeAllLeaves exOS p = None"
    "\<not> below exOS ''/st/j/workspace'' ''/out/j.zip''"
    "\<not> below exOS ''/dl/kbchat-j'' ''/dl/kbchat-j.tar.gzip''"
    "inTree exOS ''/st/j/workspace'' ''/st/j/workspace''"
    "inTree exOS ''/st/j/workspace'' ''/st/j/workspace/u/a.txt''"
    "inTree exOS ''/dl/kbchat-j'' ''/dl/kbchat-j''"
    "inTree exOS ''/dl/kbchat-j'' ''/dl/kbchat-j/chat.txt''"
    "zipWritten exOS None (?free(''/out/j.zip'' \<mapsto> File [])) ''/st/j/workspace'' None = [80]"
    "zipWritten exOS None (exDisk(''/out/j.zip'' \<mapsto> File [])) ''/st/j/workspace'' None = [80]"
    "tarWritten exOS (exDisk(''/dl/kbchat-j.tar.gzip'' \<mapsto> File [])) ''/dl/kbchat-j'' None
       = [80, 104, 105]" for p d
    by (simp_all add: exOS_def exDir_def within_def inTree_def exEncode_def exDisk_def)
  have stuck: "pathDir exStuckOS ''/out/j.zip'' = ''/out''"
    "\<not> openRefused exStuckOS p" "walkError exStuckOS d p = None" "closeError exStuckOS p = None"
    "removeAllLeaves exStuckOS p = Some (\<lambda>q. True)" for p d
    by (simp_all add: exStuckOS_def exOS_def exDir_def)
  have ws: "getWorkspaceDir exOS (exDesc ''j'') = ''/st/j/workspace''"
    "getWorkspaceDir exOS ?over = ''/st/j/workspace''"
    "getWorkspaceDir exStuckOS (exDesc ''j'') = ''/st/j/workspace''"
    by (simp_all add: getWorkspaceDir_def exDesc_def exOS_def exStuckOS_def)
  have zp: "ZipFilePath (exDesc ''j'') = ''/out/j.zip''" "\<not> OverwriteZip (exDesc ''j'')"
    "ZipFilePath ?over = ''/out/j.zip''" "OverwriteZip ?over"
    by (simp_all add: exDesc_def)
  have dk: "exDisk ''/out/j.zip'' = Some (File [1, 2, 3])" "exDisk ''/out'' = Some Dir"
    "exDisk ''/st/j/workspace'' = Some Dir" "exDisk ''/dl'' = Some Dir"
    "exDisk ''/dl/kbchat-j.tar.gzip'' = Some (File [1, 2, 3])"
    "exDisk ''/dl/kbchat-j'' = Some Dir"
    "exDisk ''/st/j/workspace/u/a.txt'' = Some (File [104, 105])"
    by (simp_all add: exDisk_def)
  have rq: "Compress exRequest" "ArchiveChat_OutputPath exOS exRequest = ''/dl/kbchat-j''"
    "Compress (exRequest\<lparr>OutputPath := []\<rparr>)"
    "ArchiveChat_OutputPath exOS (exRequest\<lparr>OutputPath := []\<rparr>) = ''/dl/kbchat-j''"
    by (simp_all add: exRequest_def ArchiveChat_OutputPath_def exOS_def)
  note excl = packaging_open_modes [where os = exOS and ctx = None and d = exDisk
      and jobDesc = "exDesc ''j''", THEN conjunct1]
  from excl zp(1,2) dk(1)
  have a1: "fst (doZipping exOS None exDisk (exDesc ''j'')) \<noteq> None"
    "snd (doZipping exOS None exDisk (exDesc ''j'')) = exDisk"
    by simp_all
  note iff_b = packaging_open_modes [where os = exOS and ctx = None and d = ?free
      and jobDesc = "exDesc ''j''", THEN conjunct2, THEN conjunct1]
  have b1: "fst (doZipping exOS None ?free (exDesc ''j'')) = None"
    unfolding iff_b by (simp add: zp dk ws os)
  note file_b = packaging_open_modes [where os = exOS and ctx = None and d = ?free
      and jobDesc = "exDesc ''j''", THEN conjunct2, THEN conjunct2, THEN conjunct1]
  from file_b b1
  have b2: "snd (doZipping exOS None ?free (exDesc ''j'')) ''/out/j.zip'' = Some (File [80])"
    by (simp add: zp ws os)
  note clean_b = packaging_open_modes [where os = exOS and ctx = None and d = ?free
      and jobDesc = "exDesc ''j''", THEN conjunct2, THEN conjunct2, THEN conjunct2,
      THEN conjunct1]
  from clean_b b1
  have b3: "snd (doZipping exOS None ?free (exDesc ''j'')) ''/st/j/workspace'' = None"
    "snd (doZipping exOS None ?free (exDesc ''j'')) ''/st/j/workspace/u/a.txt'' = None"
    by (simp_all add: ws os)
  note iff_c = packaging_open_modes [where os = exOS and ctx = None and d = exDisk
      and jobDesc = ?over, THEN conjunct2, THEN conjunct1]
  have c1: "fst (doZipping exOS None exDisk ?over) = None"
    unfolding iff_c by (simp add: zp dk ws os)
  note file_c = packaging_open_modes [where os = exOS and ctx = None and d = exDisk
      and jobDesc = ?over, THEN conjunct2, THEN conjunct2, THEN conjunct1]
  from file_c c1
  have c2: "snd (doZipping exOS None exDisk ?over) ''/out/j.zip'' = Some (File [80])"
    by (simp add: zp ws os)
  note iff_e = packaging_open_modes [where os = exStuckOS and ctx = None and d = ?free
      and jobDesc = "exDesc ''j''", THEN conjunct2, THEN conjunct1]
  have e1: "fst (doZipping exStuckOS None ?free (exDesc ''j'')) = None"
    unfolding iff_e by (simp add: zp dk ws stuck)
  note kept_e = packaging_open_modes [where os = exStuckOS and ctx = None and d = ?free
      and jobDesc = "exDesc ''j''" and keep = "\<lambda>q. True", THEN conjunct2, THEN conjunct2,
      THEN conjunct2, THEN conjunct2, THEN conjunct1]
  from kept_e e1
  have e2: "snd (doZipping exStuckOS None ?free (exDesc ''j''))
        ''/st/j/workspace/u/a.txt'' = Some (File [104, 105])"
    by (simp add: zp dk ws stuck)
  note iff_a = packaging_open_modes [where os = exOS and d = exDisk and arg = exRequest,
      THEN conjunct2, THEN conjunct2, THEN conjunct2, THEN conjunct2, THEN conjunct2,
      THEN conjunct1]
  from iff_a
  have "\<exists>outpath. fst (ArchiveChat_package exOS exDisk exRequest) = Inr outpath"
    by (simp add: rq os dk)
  then obtain outpath where r: "fst (ArchiveChat_package exOS exDisk exRequest) = Inr outpath"
    by blast
  note chat_a = packaging_open_modes [where os = exOS and d = exDisk and arg = exRequest
      and outpath = outpath,
      THEN conjunct2, THEN conjunct2, THEN conjunct2, THEN conjunct2, THEN conjunct2,
      THEN conjunct2]
  from chat_a r rq(1) have o: "outpath = ''/dl/kbchat-j.tar.gzip''"
    by (simp add: rq)
  from chat_a r rq(1)
  have a3: "snd (ArchiveChat_package exOS exDisk exRequest) ''/dl/kbchat-j'' = None"
    "snd (ArchiveChat_package exOS exDisk exRequest) ''/dl/kbchat-j/chat.txt'' = None"
    "snd (ArchiveChat_package exOS exDisk exRequest) ''/dl/kbchat-j.tar.gzip''
        = Some (File [80, 104, 105])"
    unfolding o by (simp_all add: rq os)
  note iff_f = packaging_open_modes [where os = exOS and d = exDisk
      and arg = "exRequest\<lparr>OutputPath := []\<rparr>",
      THEN conjunct2, THEN conjunct2, THEN conjunct2, THEN conjunct2, THEN conjunct2,
      THEN conjunct1]
  from iff_f
  have "\<exists>outpath. fst (ArchiveChat_package exOS exDisk (exRequest\<lparr>OutputPath := []\<rparr>))
          = Inr outpath"
    by (simp add: rq os dk)
  then obtain outpath' where
    r': "fst (ArchiveChat_package exOS exDisk (exRequest\<lparr>OutputPath := []\<rparr>)) = Inr outpath'"
    by blast
  note chat_f = packaging_open_modes [where os = exOS and d = exDisk
      and arg = "exRequest\<lparr>OutputPath := []\<rparr>" and outpath = outpath',
      THEN conjunct2, THEN conjunct2, THEN conjunct2, THEN conjunct2, THEN conjunct2,
      THEN conjunct2]
  from chat_f r' rq(3) have o': "outpath' = ''/dl/kbchat-j.tar.gzip''"
    by (simp add: rq)
  from a1 b1 b2 b3 c1 c2 e1 e2 r a3 r' show ?thesis
    unfolding o o' by simp
qed

end
